theory Spec2Isabelle
  imports Main
begin

section \<open>Go strings and the standard-library functions used by \<open>domain/target.go\<close>\<close>

text \<open>
  A Go \<open>string\<close> is a sequence of bytes: it is modelled as \<^typ>\<open>string\<close> (a list of 8-bit
  characters). \<open>fmt.Sprintf\<close> with \<open>%s\<close> verbs is list concatenation. The calls to
  \<open>fmt.Println\<close> and \<open>fmt.Printf\<close> only write to standard output and are left out.
\<close>

datatype error =
    InvalidTargetRef string
  | AbsolutePathNotSupported string
  | RegexpError string
  | Panic string

text \<open>\<open>strings.HasPrefix(s, prefix)\<close>.\<close>

definition HasPrefix :: "string \<Rightarrow> string \<Rightarrow> bool" where
  "HasPrefix s p = (take (length p) s = p)"

text \<open>
  \<open>strings.SplitN(s, sep, n)\<close> for a separator of one byte and \<open>n \<ge> 0\<close>: at most \<open>n\<close>
  pieces, the last one being the unsplit remainder.
\<close>

fun SplitN :: "string \<Rightarrow> char \<Rightarrow> nat \<Rightarrow> string list" where
  "SplitN s sep 0 = []"
| "SplitN s sep (Suc 0) = [s]"
| "SplitN s sep (Suc (Suc k)) =
     (if sep \<in> set s
      then takeWhile (\<lambda>c. c \<noteq> sep) s # SplitN (tl (dropWhile (\<lambda>c. c \<noteq> sep) s)) sep (Suc k)
      else [s])"

subsection \<open>Package \<open>path\<close>\<close>

text \<open>\<open>path.IsAbs\<close>: the path begins with a slash.\<close>

definition IsAbs :: "string \<Rightarrow> bool" where
  "IsAbs p = (p \<noteq> [] \<and> hd p = CHR ''/'')"

text \<open>
  \<open>path.Clean\<close>. The library walks the path with a read index and writes into a buffer
  \<open>out\<close>; \<open>dotdot\<close> is the length of the part of the buffer that a \<open>..\<close> element may not
  remove. \<open>backtrack\<close> is its inner loop that drops the last element of the buffer: \<open>w\<close> is
  the write index, already decremented once.
\<close>

fun backtrack :: "string \<Rightarrow> nat \<Rightarrow> nat \<Rightarrow> nat" where
  "backtrack out dotdot 0 = 0"
| "backtrack out dotdot (Suc w) =
     (if Suc w > dotdot \<and> out ! Suc w \<noteq> CHR ''/'' then backtrack out dotdot w else Suc w)"

function clean_loop :: "bool \<Rightarrow> string \<Rightarrow> string \<Rightarrow> nat \<Rightarrow> string" where
  "clean_loop rooted [] out dotdot = out"
| "clean_loop rooted (c # rest) out dotdot =
     (if c = CHR ''/'' then clean_loop rooted rest out dotdot
      else if c = CHR ''.'' \<and> (rest = [] \<or> hd rest = CHR ''/'') then
        clean_loop rooted rest out dotdot
      else if c = CHR ''.'' \<and> hd rest = CHR ''.'' \<and> (tl rest = [] \<or> hd (tl rest) = CHR ''/'') then
        (if length out > dotdot then
           clean_loop rooted (tl rest) (take (backtrack out dotdot (length out - 1)) out) dotdot
         else if \<not> rooted then
           (let out' = (if length out > 0 then out @ ''/'' else out) @ ''..''
            in clean_loop rooted (tl rest) out' (length out'))
         else clean_loop rooted (tl rest) out dotdot)
      else
        (let out' = (if rooted \<and> length out \<noteq> 1 \<or> \<not> rooted \<and> length out \<noteq> 0
                     then out @ ''/'' else out)
         in clean_loop rooted (dropWhile (\<lambda>x. x \<noteq> CHR ''/'') rest)
              (out' @ c # takeWhile (\<lambda>x. x \<noteq> CHR ''/'') rest) dotdot))"
  by pat_completeness auto
termination
  by (relation "measure (\<lambda>(rooted, p, out, dotdot). length p)")
     (auto simp: less_Suc_eq_le length_dropWhile_le intro: le_trans [OF diff_le_self])

definition Clean :: "string \<Rightarrow> string" where
  "Clean p =
     (if p = [] then ''.''
      else
        (let rooted = (hd p = CHR ''/'');
             out = (if rooted then clean_loop True (tl p) ''/'' 1
                    else clean_loop False p [] 0)
         in if out = [] then ''.'' else out))"

text \<open>
  \<open>path.Join\<close>: the elements from the first non-empty one on are joined with slashes and
  cleaned; the result is empty when every element is empty.
\<close>

fun join_with_slash :: "string list \<Rightarrow> string" where
  "join_with_slash [] = []"
| "join_with_slash [e] = e"
| "join_with_slash (e # es) = e @ ''/'' @ join_with_slash es"

fun Join :: "string list \<Rightarrow> string" where
  "Join [] = []"
| "Join (e # es) = (if e \<noteq> [] then Clean (join_with_slash (e # es)) else Join es)"

subsection \<open>Package \<open>regexp\<close>, for the patterns of the matcher table\<close>

text \<open>
  The matcher patterns use three constructs of the regular-expression syntax: a literal
  byte, \<open>.\<close> (any character but a newline) and \<open>[^c]+\<close> (one or more characters other
  than \<open>c\<close>, as many as possible). \<open>Compile\<close> translates this fragment and reports any
  other metacharacter as an error, which the caller turns into a panic.
\<close>

datatype rx = Lit char | AnyChar | NotCharPlus char

definition metachars :: "char set" where
  "metachars = set (CHR 0x5C # ''.+*?()|[]{}^$'')"

fun Compile :: "string \<Rightarrow> error + rx list" where
  "Compile [] = Inr []"
| "Compile (c # r) =
     (if c = CHR ''.'' then map_sum id ((#) AnyChar) (Compile r)
      else if c = CHR ''['' then
        (case r of
           c1 # c2 # c3 # c4 # r' \<Rightarrow>
             if c1 = CHR ''^'' \<and> c2 \<notin> metachars \<and> c2 \<noteq> CHR ''-'' \<and> c3 = CHR '']'' \<and> c4 = CHR ''+''
             then map_sum id ((#) (NotCharPlus c2)) (Compile r')
             else Inl (RegexpError (c # r))
         | _ \<Rightarrow> Inl (RegexpError (c # r)))
      else if c \<in> metachars then Inl (RegexpError (c # r))
      else map_sum id ((#) (Lit c)) (Compile r))"

text \<open>
  The width in bytes of the first UTF-8 encoded character of a string, as
  \<open>utf8.DecodeRuneInString\<close> computes it: an invalid or truncated encoding counts as one
  byte. The regular-expression engine reads its input in these steps.
\<close>

definition continuation :: "char \<Rightarrow> bool" where
  "continuation c = (0x80 \<le> (of_char c :: nat) \<and> (of_char c :: nat) \<le> 0xBF)"

definition rune_width :: "string \<Rightarrow> nat" where
  "rune_width s =
     (case s of
        [] \<Rightarrow> 0
      | c0 # r \<Rightarrow>
          (let b0 = (of_char c0 :: nat) in
           if b0 < 0x80 then 1
           else if b0 < 0xC2 \<or> 0xF4 < b0 then 1
           else
             (case r of
                [] \<Rightarrow> 1
              | c1 # r1 \<Rightarrow>
                  (let b1 = (of_char c1 :: nat);
                       lo = (if b0 = 0xE0 then 0xA0 else if b0 = 0xF0 then 0x90 else 0x80);
                       hi = (if b0 = 0xED then 0x9F else if b0 = 0xF4 then 0x8F else 0xBF)
                   in if b1 < lo \<or> hi < b1 then 1
                      else if b0 < 0xE0 then 2
                      else
                        (case r1 of
                           [] \<Rightarrow> 1
                         | c2 # r2 \<Rightarrow>
                             if \<not> continuation c2 then 1
                             else if b0 < 0xF0 then 3
                             else
                               (case r2 of
                                  [] \<Rightarrow> 1
                                | c3 # r3 \<Rightarrow> if continuation c3 then 4 else 1))))))"

text \<open>
  \<open>longest f s k\<close> tries to continue the match after the first \<open>k\<close>, \<open>k - 1\<close>, ..., \<open>1\<close>
  bytes of \<open>s\<close>, the longest first, as a greedy \<open>+\<close> does.
\<close>

fun longest :: "(string \<Rightarrow> nat option) \<Rightarrow> string \<Rightarrow> nat \<Rightarrow> nat option" where
  "longest f s 0 = None"
| "longest f s (Suc k) =
     (case f (drop (Suc k) s) of
        Some n \<Rightarrow> Some (Suc k + n)
      | None \<Rightarrow> longest f s k)"

text \<open>
  \<open>match_here r s\<close> is the length of the match of \<open>r\<close> that starts at the beginning of
  \<open>s\<close>, if there is one. In the four patterns of the table every \<open>[^/]+\<close> is followed by a
  slash or by the end of the pattern, so the maximal run of bytes other than the slash is
  the match of \<open>[^/]+\<close>, and it ends between two characters.
\<close>

primrec match_here :: "rx list \<Rightarrow> string \<Rightarrow> nat option" where
  "match_here [] = (\<lambda>s. Some 0)"
| "match_here (i # r) =
     (\<lambda>s. case i of
        Lit c \<Rightarrow>
          (case s of
             [] \<Rightarrow> None
           | x # xs \<Rightarrow> if x = c then map_option Suc (match_here r xs) else None)
      | AnyChar \<Rightarrow>
          (if s = [] \<or> hd s = CHR 0x0A then None
           else map_option (\<lambda>n. rune_width s + n) (match_here r (drop (rune_width s) s)))
      | NotCharPlus c \<Rightarrow>
          longest (match_here r) s (length (takeWhile (\<lambda>x. x \<noteq> c) s)))"

text \<open>
  \<open>Regexp.FindString\<close>: the text of the leftmost match, or the empty string when there is
  none. The search moves from one character of the input to the next.
\<close>

function FindString :: "rx list \<Rightarrow> string \<Rightarrow> string" where
  "FindString r s =
     (case match_here r s of
        Some n \<Rightarrow> take n s
      | None \<Rightarrow> if s = [] then [] else FindString r (drop (max 1 (rune_width s)) s))"
  by pat_completeness auto
termination
  by (relation "measure (\<lambda>(r, s). length s)") auto

section \<open>Target references (\<open>domain/target.go\<close>)\<close>

text \<open>The struct \<open>Target\<close>; the zero value of a string field is the empty string.\<close>

record Target =
  GitURL :: string
  GitPath :: string
  Tag :: string
  LocalPath :: string
  Target :: string

definition IsLocalInternal :: "Target \<Rightarrow> bool" where
  "IsLocalInternal et = (LocalPath et = ''.'')"

definition IsLocalExternal :: "Target \<Rightarrow> bool" where
  "IsLocalExternal et = (LocalPath et \<noteq> ''.'' \<and> LocalPath et \<noteq> [])"

definition IsRemote :: "Target \<Rightarrow> bool" where
  "IsRemote et = (\<not> IsLocalExternal et \<and> \<not> IsLocalInternal et)"

definition IsExternal :: "Target \<Rightarrow> bool" where
  "IsExternal et = (IsRemote et \<or> IsLocalExternal et)"

text \<open>The method \<open>String\<close>.\<close>

definition String :: "Target \<Rightarrow> string" where
  "String et =
     (if IsLocalExternal et then LocalPath et @ ''+'' @ Target et
      else if IsRemote et then
        (let tag = (if Tag et = [] then [] else '':'' @ Tag et)
         in GitURL et @ ''/'' @ GitPath et @ tag @ ''+'' @ Target et)
      else ''+'' @ Target et)"

text \<open>The method \<open>StringCanonical\<close>.\<close>

definition StringCanonical :: "Target \<Rightarrow> string" where
  "StringCanonical et =
     (if GitURL et \<noteq> [] then
        (let tag = (if Tag et = [] then [] else '':'' @ Tag et)
         in GitURL et @ ''/'' @ GitPath et @ tag @ ''+'' @ Target et)
      else String et)"

text \<open>The matcher table that \<open>parseGitURLandPath\<close> builds on every call.\<close>

record gitMatcher =
  pattern :: string
  user :: string
  suffix :: string

definition matchers :: "gitMatcher list" where
  "matchers =
     [\<lparr>pattern = ''github.com/[^/]+/[^/]+'', user = ''git'', suffix = ''.git''\<rparr>,
      \<lparr>pattern = ''gitlab.com/[^/]+/[^/]+'', user = ''git'', suffix = ''.git''\<rparr>,
      \<lparr>pattern = ''bitbucket.com/[^/]+/[^/]+'', user = ''git'', suffix = ''.git''\<rparr>,
      \<lparr>pattern = ''192.168.0.116/my/test/path/[^/]+'', user = ''alex'', suffix = ''.git''\<rparr>]"

text \<open>
  The loop of \<open>parseGitURLandPath\<close> over the matchers: the first pattern with a non-empty
  match decides, and the sub-path is the input from the length of the match on. After
  the loop the function returns two empty strings and no error.
\<close>

fun match_loop :: "gitMatcher list \<Rightarrow> string \<Rightarrow> error + (string \<times> string)" where
  "match_loop [] path = Inr ([], [])"
| "match_loop (m # ms) path =
     (case Compile (pattern m) of
        Inl err \<Rightarrow> Inl (Panic ''regexp: error parsing regexp'')
      | Inr r \<Rightarrow>
          (let match = FindString r path
           in if match \<noteq> [] then Inr (match, drop (length match) path)
              else match_loop ms path))"

definition parseGitURLandPath :: "string \<Rightarrow> error + (string \<times> string)" where
  "parseGitURLandPath path = match_loop matchers path"

text \<open>\<open>ParseTarget\<close>.\<close>

definition ParseTarget :: "string \<Rightarrow> error + Target" where
  "ParseTarget fullTargetName =
     (let partsPlus = SplitN fullTargetName (CHR ''+'') 2 in
      if length partsPlus \<noteq> 2 then Inl (InvalidTargetRef fullTargetName)
      else if partsPlus ! 0 = [] then
        Inr \<lparr>GitURL = [], GitPath = [], Tag = [], LocalPath = ''.'', Target = partsPlus ! 1\<rparr>
      else if HasPrefix (partsPlus ! 0) ''.'' \<or> HasPrefix (partsPlus ! 0) ''/'' then
        (let localPath = partsPlus ! 0;
             localPath' =
               (if IsAbs localPath then Clean localPath
                else if \<not> HasPrefix (Clean localPath) ''.'' then ''./'' @ Clean localPath
                else Clean localPath)
         in Inr \<lparr>GitURL = [], GitPath = [], Tag = [], LocalPath = localPath',
                  Target = partsPlus ! 1\<rparr>)
      else
        (let partsColon = SplitN (partsPlus ! 0) (CHR '':'') 2;
             tag = (if length partsColon = 2 then partsColon ! 1 else [])
         in case parseGitURLandPath (partsColon ! 0) of
              Inl err \<Rightarrow> Inl err
            | Inr (gitURL, gitPath) \<Rightarrow>
                Inr \<lparr>GitURL = gitURL, GitPath = gitPath, Tag = tag, LocalPath = [],
                     Target = partsPlus ! 1\<rparr>))"

text \<open>
  \<open>JoinTargets\<close>. When the first target is remote and the second is not, the function
  panics with the message \<open>TODO\<close>; the statements after the panic are never executed.
\<close>

definition JoinTargets :: "Target \<Rightarrow> Target \<Rightarrow> error + Target" where
  "JoinTargets target1 target2 =
     (if IsRemote target1 then
        (if \<not> IsRemote target2 then Inl (Panic ''TODO'') else Inr target2)
      else if IsLocalExternal target2 then
        (if IsAbs (LocalPath target2) then
           Inr (target2\<lparr>LocalPath := Clean (LocalPath target2)\<rparr>)
         else
           (let joined = Join [LocalPath target1, LocalPath target2]
            in if \<not> HasPrefix joined ''.''
               then Inr (target2\<lparr>LocalPath := ''./'' @ joined\<rparr>)
               else Inr (target2\<lparr>LocalPath := joined\<rparr>)))
      else if IsLocalInternal target2 then
        Inr (target2\<lparr>LocalPath := LocalPath target1\<rparr>)
      else Inr target2)"

section \<open>The indentation lexer (\<open>earthfile2llb/lexer.go\<close>)\<close>

subsection \<open>Character streams\<close>

text \<open>
  The input stream of the lexer holds characters (Go's \<open>rune\<close>, a code point), not bytes:
  \<open>NewInputStream\<close> converts a string with \<open>[]rune(data)\<close>, and positions in the stream
  count characters. Text taken from the stream is a string again, the UTF-8 encoding of
  the characters, and positions in it count bytes.
\<close>

type_synonym rune = int

text \<open>
  The value of the first character of a non-empty string, as \<open>utf8.DecodeRuneInString\<close>
  computes it; an invalid encoding gives the replacement character \<open>U+FFFD\<close>.
\<close>

definition rune_value :: "string \<Rightarrow> rune" where
  "rune_value s =
     (let b = (\<lambda>i. (of_char (s ! i) :: int)) in
      if rune_width s = 1 then (if b 0 < 0x80 then b 0 else 0xFFFD)
      else if rune_width s = 2 then (b 0 mod 32) * 64 + b 1 mod 64
      else if rune_width s = 3 then (b 0 mod 16) * 4096 + (b 1 mod 64) * 64 + b 2 mod 64
      else (b 0 mod 8) * 262144 + (b 1 mod 64) * 4096 + (b 2 mod 64) * 64 + b 3 mod 64)"

text \<open>The conversion \<open>[]rune(data)\<close> of \<open>NewInputStream\<close>.\<close>

function NewInputStream :: "string \<Rightarrow> rune list" where
  "NewInputStream s =
     (if s = [] then [] else rune_value s # NewInputStream (drop (max 1 (rune_width s)) s))"
  by pat_completeness auto
termination
  by (relation "measure length") auto

text \<open>
  The UTF-8 encoding of one character, as the conversion \<open>string(runes)\<close> writes it: a
  value that is no code point (negative, a surrogate, above \<open>U+10FFFF\<close>) is written as
  \<open>U+FFFD\<close>.
\<close>

definition EncodeRune :: "rune \<Rightarrow> string" where
  "EncodeRune r =
     (if 0 \<le> r \<and> r < 0x80 then [char_of r]
      else if 0 \<le> r \<and> r < 0x800 then [char_of (0xC0 + r div 64), char_of (0x80 + r mod 64)]
      else if r < 0 \<or> 0x10FFFF < r \<or> (0xD800 \<le> r \<and> r \<le> 0xDFFF) then
        [CHR 0xEF, CHR 0xBF, CHR 0xBD]
      else if r < 0x10000 then
        [char_of (0xE0 + r div 4096), char_of (0x80 + (r div 64) mod 64), char_of (0x80 + r mod 64)]
      else
        [char_of (0xF0 + r div 262144), char_of (0x80 + (r div 4096) mod 64),
         char_of (0x80 + (r div 64) mod 64), char_of (0x80 + r mod 64)])"

definition RunesToString :: "rune list \<Rightarrow> string" where
  "RunesToString rs = concat (map EncodeRune rs)"

subsection \<open>Tokens and the embedded lexer\<close>

text \<open>
  The token types that \<open>NextToken\<close> distinguishes are constants of the generated package
  \<open>earthfile2llb/parser\<close>; every other type of the grammar is \<open>OtherType\<close> with its number.
\<close>

datatype token_type =
    EarthLexerWS
  | EarthLexerNL
  | EarthLexerHereDoc
  | EarthLexerAtom
  | EarthLexerINDENT
  | EarthLexerDEDENT
  | TokenEOF
  | OtherType int

text \<open>
  The fields of a token. \<open>tokenText\<close> is the text stored in the token: it is empty unless
  \<open>SetText\<close> or the token factory has stored a non-empty text. \<open>start\<close> and \<open>stop\<close> are
  positions in the character stream, \<open>stop\<close> inclusive.
\<close>

record token =
  tokenType :: token_type
  tokenText :: string
  channel :: int
  start :: int
  stop :: int
  line :: int
  column :: int

text \<open>
  The part of the embedded \<open>EarthLexer\<close> that \<open>NextToken\<close> touches: the characters of the
  input stream with the read index, the start index of the current token, and the stack
  of lexer modes.
\<close>

record BaseLexer =
  input :: "rune list"
  index :: int
  TokenStartCharIndex :: int
  modeStack :: "int list"
  mode :: int

text \<open>
  \<open>InputStream.GetText(start, stop)\<close>: the characters from \<open>start\<close> to \<open>stop\<close> inclusive,
  \<open>stop\<close> clipped to the input, as a string. The slice expression panics when its bounds
  are out of order.
\<close>

definition GetText :: "BaseLexer \<Rightarrow> int \<Rightarrow> int \<Rightarrow> error + string" where
  "GetText b lo hi =
     (let size = int (length (input b));
          hi' = (if hi \<ge> size then size - 1 else hi)
      in if lo \<ge> size then Inr []
         else if lo < 0 \<or> hi' + 1 < lo then Inl (Panic ''slice bounds out of range'')
         else Inr (RunesToString (take (nat (hi' + 1 - lo)) (drop (nat lo) (input b)))))"

text \<open>
  \<open>CommonToken.GetText\<close>: the stored text when it is not empty; otherwise the text of the
  stream from \<open>start\<close> to \<open>stop\<close>, or \<open><EOF>\<close> when one of them lies beyond the input.
\<close>

definition TokenGetText :: "BaseLexer \<Rightarrow> token \<Rightarrow> error + string" where
  "TokenGetText b t =
     (if tokenText t \<noteq> [] then Inr (tokenText t)
      else if start t < int (length (input b)) \<and> stop t < int (length (input b))
      then GetText b (start t) (stop t)
      else Inr ''<EOF>'')"

text \<open>\<open>InputStream.Seek\<close>: backwards to the index given, forwards at most to the end.\<close>

definition Seek :: "BaseLexer \<Rightarrow> int \<Rightarrow> BaseLexer" where
  "Seek b i =
     (if i \<le> index b then b\<lparr>index := i\<rparr>
      else b\<lparr>index := min i (int (length (input b)))\<rparr>)"

text \<open>\<open>BaseLexer.PopMode\<close> panics on an empty mode stack.\<close>

definition PopMode :: "BaseLexer \<Rightarrow> error + BaseLexer" where
  "PopMode b =
     (if modeStack b = [] then Inl (Panic ''Empty Stack'')
      else Inr (b\<lparr>mode := last (modeStack b), modeStack := butlast (modeStack b)\<rparr>))"

text \<open>\<open>strings.Index\<close>: the byte index of the first occurrence, or \<open>-1\<close>.\<close>

fun Index :: "string \<Rightarrow> string \<Rightarrow> int" where
  "Index [] sub = (if sub = [] then 0 else - 1)"
| "Index (c # r) sub =
     (if HasPrefix (c # r) sub then 0
      else (let i = Index r sub in if i < 0 then - 1 else i + 1))"

subsection \<open>The lexer state and \<open>NextToken\<close>\<close>

record lexer =
  earthLexer :: BaseLexer
  prevIndentLevel :: int
  indentLevel :: int
  afterNewLine :: bool
  tokenQueue :: "token list"
  wsChannel :: int
  wsStart :: int
  wsStop :: int
  wsLine :: int
  wsColumn :: int

text \<open>
  The token factory's \<open>Create\<close>, as the lexer calls it for a synthetic token: the text
  passed is empty and the default factory does not copy text, so the stored text stays
  empty; the position is that of the last white-space token. \<open>GetText\<close> of such a token
  therefore reads the stream at the position of that white space.
\<close>

definition Create :: "lexer \<Rightarrow> token_type \<Rightarrow> token" where
  "Create l ty =
     \<lparr>tokenType = ty, tokenText = [], channel = wsChannel l, start = wsStart l, stop = wsStop l,
      line = wsLine l, column = wsColumn l\<rparr>"

text \<open>
  The branch of \<open>NextToken\<close> for an atom whose text begins with \<open><<\<close>. The delimiter is the
  constant \<open>EOF\<close> and the text searched is that of the 19 characters after the opening
  line. The index that \<open>strings.Index\<close> returns counts bytes of that text and is added to
  a position of the stream. The token returned is the atom itself with the body stored
  as its text; it does not pass through the token queue, and the indentation state is
  left as it was.
\<close>

definition hereDocAtom :: "lexer \<Rightarrow> BaseLexer \<Rightarrow> token \<Rightarrow> error + (token \<times> lexer)" where
  "hereDocAtom l b peek =
     (let heredoc = ''EOF'';
          startIdx = start peek + int (length (''<<'' @ heredoc @ [CHR 0x0A]));
          n = 19;
          endIdx = startIdx + (n - 1)
      in case GetText b startIdx endIdx of
           Inl err \<Rightarrow> Inl err
         | Inr s \<Rightarrow>
             (let n = Index s ''EOF'' in
              if n < 0 then Inl (Panic ''EOF not found'')
              else
                (let s' = take (nat n) s;
                     n' = n + int (length ''EOF'');
                     b1 = b\<lparr>TokenStartCharIndex := startIdx + n'\<rparr>;
                     ret = peek\<lparr>tokenText := s'\<rparr>;
                     b2 = Seek b1 (startIdx + n')
                 in case PopMode b2 of
                      Inl err \<Rightarrow> Inl err
                    | Inr b3 \<Rightarrow> Inr (ret, l\<lparr>earthLexer := b3\<rparr>))))"

text \<open>
  The last statement of \<open>NextToken\<close>: with a non-empty queue the token just read is
  appended and the head of the queue is returned.
\<close>

definition flushQueue :: "lexer \<Rightarrow> token \<Rightarrow> token \<times> lexer" where
  "flushQueue l peek =
     (if length (tokenQueue l) > 0
      then (hd (tokenQueue l @ [peek]), l\<lparr>tokenQueue := tl (tokenQueue l @ [peek])\<rparr>)
      else (peek, l))"

text \<open>
  The indentation part of the default branch of \<open>NextToken\<close>: at the start of a line one
  INDENT or one DEDENT is appended to the queue, a DEDENT popping one lexer mode; then the
  level is recorded and the start-of-line flag cleared.
\<close>

definition indentStep :: "lexer \<Rightarrow> error + lexer" where
  "indentStep l =
     (case (if afterNewLine l then
              (if prevIndentLevel l < indentLevel l then
                 Inr (l\<lparr>tokenQueue := tokenQueue l @ [Create l EarthLexerINDENT]\<rparr>)
               else if prevIndentLevel l > indentLevel l then
                 (case PopMode (earthLexer l) of
                    Inl err \<Rightarrow> Inl err
                  | Inr b' \<Rightarrow>
                      Inr (l\<lparr>earthLexer := b',
                             tokenQueue := tokenQueue l @ [Create l EarthLexerDEDENT]\<rparr>))
               else Inr l)
            else Inr l) of
        Inl err \<Rightarrow> Inl err
      | Inr l1 \<Rightarrow> Inr (l1\<lparr>prevIndentLevel := indentLevel l1, afterNewLine := False\<rparr>))"

text \<open>
  \<open>NextToken\<close>. The generated \<open>EarthLexer.NextToken\<close> is the parameter \<open>next\<close>: it reads one
  token and advances the embedded lexer.
\<close>

definition NextToken ::
  "(BaseLexer \<Rightarrow> token \<times> BaseLexer) \<Rightarrow> lexer \<Rightarrow> error + (token \<times> lexer)" where
  "NextToken next l =
     (case next (earthLexer l) of
        (peek, b) \<Rightarrow>
          (let l0 = l\<lparr>earthLexer := b\<rparr> in
           if tokenType peek = EarthLexerWS then
             (let l1 = (if afterNewLine l0 then l0\<lparr>indentLevel := indentLevel l0 + 1\<rparr> else l0);
                  l2 = l1\<lparr>wsChannel := channel peek, wsStart := start peek, wsStop := stop peek,
                          wsLine := line peek, wsColumn := column peek\<rparr>
              in Inr (flushQueue l2 peek))
           else if tokenType peek = EarthLexerNL then
             Inr (flushQueue (l0\<lparr>indentLevel := 0, afterNewLine := True\<rparr>) peek)
           else if tokenType peek = EarthLexerHereDoc then Inl (Panic ''TODO'')
           else
             (case (if tokenType peek = EarthLexerAtom then TokenGetText b peek else Inr []) of
                Inl err \<Rightarrow> Inl err
              | Inr s \<Rightarrow>
                  if tokenType peek = EarthLexerAtom \<and> HasPrefix s ''<<'' then
                    hereDocAtom l0 b peek
                  else
                    (case indentStep l0 of
                       Inl err \<Rightarrow> Inl err
                     | Inr l1 \<Rightarrow> Inr (flushQueue l1 peek)))))"

text \<open>\<open>n\<close> calls of \<open>NextToken\<close> in a row, as the token stream of the parser makes them.\<close>

fun NextTokens ::
  "(BaseLexer \<Rightarrow> token \<times> BaseLexer) \<Rightarrow> nat \<Rightarrow> lexer \<Rightarrow> error + (token list \<times> lexer)" where
  "NextTokens next 0 l = Inr ([], l)"
| "NextTokens next (Suc n) l =
     (case NextToken next l of
        Inl err \<Rightarrow> Inl err
      | Inr (t, l') \<Rightarrow>
          (case NextTokens next n l' of
             Inl err \<Rightarrow> Inl err
           | Inr (ts, l'') \<Rightarrow> Inr (t # ts, l'')))"

text \<open>
  \<open>newLexer\<close>: a fresh embedded lexer on the character stream and the zero value of every
  field.
\<close>

definition newLexer :: "rune list \<Rightarrow> lexer" where
  "newLexer inp =
     \<lparr>earthLexer = \<lparr>input = inp, index = 0, TokenStartCharIndex = - 1, modeStack = [], mode = 0\<rparr>,
      prevIndentLevel = 0, indentLevel = 0, afterNewLine = False, tokenQueue = [],
      wsChannel = 0, wsStart = 0, wsStop = 0, wsLine = 0, wsColumn = 0\<rparr>"

subsection \<open>The tokens read in a run, and the tokens of the amended indentation rule\<close>

text \<open>
  The tokens that \<open>n\<close> calls of \<open>NextToken\<close> read from the embedded lexer, each with the
  state of the embedded lexer after it was read.
\<close>

fun reads ::
  "(BaseLexer \<Rightarrow> token \<times> BaseLexer) \<Rightarrow> nat \<Rightarrow> lexer \<Rightarrow> (token \<times> BaseLexer) list" where
  "reads next 0 l = []"
| "reads next (Suc n) l =
     next (earthLexer l) #
     (case NextToken next l of
        Inl err \<Rightarrow> []
      | Inr (t, l') \<Rightarrow> reads next n l')"

text \<open>A token read opens a here-document: it is an atom whose text begins with \<open><<\<close>.\<close>

definition opensHereDoc :: "token \<times> BaseLexer \<Rightarrow> bool" where
  "opensHereDoc pb =
     (tokenType (fst pb) = EarthLexerAtom \<and>
      (case TokenGetText (snd pb) (fst pb) of
         Inl err \<Rightarrow> False
       | Inr s \<Rightarrow> HasPrefix s ''<<''))"

text \<open>
  The indentation rule as a function on the list of tokens read. The state is the level
  recorded at the last content token, the level of the current line, whether the line
  has begun, and the last white-space token without its text (its channel and position
  are those of a synthetic token). A WS token at the start of a line adds one to the level, an NL token sets the
  level to 0 and begins a line, and any other token is preceded by one INDENT when the
  line has just begun with a greater level, by one DEDENT when with a smaller level.
\<close>

record indent_state =
  recorded :: int
  current :: int
  line_begins :: bool
  last_ws :: token

definition synthetic :: "indent_state \<Rightarrow> token_type \<Rightarrow> token" where
  "synthetic st ty = (last_ws st)\<lparr>tokenType := ty\<rparr>"

fun with_indents :: "indent_state \<Rightarrow> token list \<Rightarrow> token list" where
  "with_indents st [] = []"
| "with_indents st (p # ps) =
     (if tokenType p = EarthLexerWS then
        p # with_indents
              (st\<lparr>current := (if line_begins st then current st + 1 else current st),
                  last_ws := p\<lparr>tokenText := []\<rparr>\<rparr>) ps
      else if tokenType p = EarthLexerNL then
        p # with_indents (st\<lparr>current := 0, line_begins := True\<rparr>) ps
      else
        (if line_begins st \<and> recorded st < current st then [synthetic st EarthLexerINDENT]
         else if line_begins st \<and> current st < recorded st then [synthetic st EarthLexerDEDENT]
         else []) @
        p # with_indents (st\<lparr>recorded := current st, line_begins := False\<rparr>) ps)"

text \<open>The indentation state that a lexer state holds.\<close>

definition indent_of :: "lexer \<Rightarrow> indent_state" where
  "indent_of l =
     \<lparr>recorded = prevIndentLevel l, current = indentLevel l, line_begins = afterNewLine l,
      last_ws = Create l EarthLexerWS\<rparr>"

subsection \<open>A lexer for the tokens of the specification\<close>

text \<open>A blank is a space or a tab.\<close>

definition blank :: "rune \<Rightarrow> bool" where
  "blank c = (c = 0x20 \<or> c = 0x09)"

text \<open>
  Modelled from the spec: the generated lexer \<open>parser.EarthLexer\<close> (package
  \<open>earthfile2llb/parser\<close>) is not among the sources. The specification names its tokens: a
  physical newline is an NL token, a run of blanks is a WS token outside the parser's
  channel, any other lexeme without white space is an ATOM, and the end of the input is
  EOF. \<open>specNextToken\<close> reads one such token at the read index and never changes the mode
  stack. As the lexer runtime does, it stores no text in the token: the text of a token
  is read from the stream. It serves to run \<open>NextToken\<close> on concrete texts; the theorems
  about \<open>NextToken\<close> hold for every lexer passed as \<open>next\<close>.
\<close>

definition specNextToken :: "BaseLexer \<Rightarrow> token \<times> BaseLexer" where
  "specNextToken b =
     (let i = nat (index b);
          seen = take i (input b);
          rest = drop i (input b);
          ln = 1 + int (length (filter (\<lambda>c. c = 0x0A) seen));
          col = int (length (takeWhile (\<lambda>c. c \<noteq> 0x0A) (rev seen)));
          tok = (\<lambda>ty w ch.
                  (\<lparr>tokenType = ty, tokenText = [], channel = ch, start = int i,
                    stop = int i + int (length w) - 1, line = ln, column = col\<rparr>,
                   b\<lparr>index := int i + int (length w), TokenStartCharIndex := int i\<rparr>))
      in case rest of
           [] \<Rightarrow>
             (\<lparr>tokenType = TokenEOF, tokenText = [], channel = 0, start = int i,
               stop = int i - 1, line = ln, column = col\<rparr>, b\<lparr>TokenStartCharIndex := int i\<rparr>)
         | c # cs \<Rightarrow>
             if c = 0x0A then tok EarthLexerNL [c] 0
             else if blank c then tok EarthLexerWS (takeWhile blank rest) 1
             else tok EarthLexerAtom (takeWhile (\<lambda>x. \<not> blank x \<and> x \<noteq> 0x0A) rest) 0)"

text \<open>
  Modelled from the spec: the indent measure in visible columns, which \<open>lexer.go\<close> does not
  compute. The specification measures the leading run of blanks of a line by the column
  it reaches, a tab moving to the next multiple of 8.
\<close>

definition spec_visible_columns :: "string \<Rightarrow> nat" where
  "spec_visible_columns ws =
     foldl (\<lambda>col c. if c = CHR 0x09 then (col div 8 + 1) * 8 else col + 1) 0 ws"

subsection \<open>Example texts and states\<close>

text \<open>
  A lexer state in the middle of a text: the text, the read index, the previous and the
  current indent level, the new-line flag and the mode stack; the token queue is empty.
\<close>

definition lexer_at :: "string \<Rightarrow> int \<Rightarrow> int \<Rightarrow> int \<Rightarrow> bool \<Rightarrow> int list \<Rightarrow> lexer" where
  "lexer_at txt i prev lvl nl ms =
     (newLexer (NewInputStream txt))
       \<lparr>earthLexer := (earthLexer (newLexer (NewInputStream txt)))\<lparr>index := i, modeStack := ms\<rparr>,
        prevIndentLevel := prev, indentLevel := lvl, afterNewLine := nl\<rparr>"

text \<open>The text of three lines \<open>a\<close>, \<open>b\<close> after two blanks, and \<open>c\<close>.\<close>

definition three_lines :: string where
  "three_lines = ''a'' @ [CHR 0x0A] @ ''  b'' @ [CHR 0x0A] @ ''c''"

text \<open>The text of three lines \<open>a\<close>, \<open>b\<close> after two blanks, and \<open>c\<close> after four blanks.\<close>

definition deeper_lines :: string where
  "deeper_lines = ''a'' @ [CHR 0x0A] @ ''  b'' @ [CHR 0x0A] @ ''    c''"

text \<open>The same text followed by a fourth line \<open>d\<close> without indentation.\<close>

definition closing_lines :: string where
  "closing_lines = deeper_lines @ [CHR 0x0A] @ ''d''"

text \<open>
  The types of the tokens a run returns, each with the text that \<open>GetText\<close> of the token
  gives.
\<close>

definition kinds ::
  "error + (token list \<times> lexer) \<Rightarrow> error + (token_type \<times> (error + string)) list" where
  "kinds r =
     map_sum id (\<lambda>p. map (\<lambda>t. (tokenType t, TokenGetText (earthLexer (snd p)) t)) (fst p)) r"

section \<open>Properties of the target references\<close>

subsection \<open>Splitting at the first separator\<close>

lemma SplitN_2_mem:
  "sep \<in> set s \<Longrightarrow>
   SplitN s sep 2 = [takeWhile (\<lambda>c. c \<noteq> sep) s, tl (dropWhile (\<lambda>c. c \<noteq> sep) s)]"
  by (simp add: numeral_2_eq_2)

lemma SplitN_2_append:
  "sep \<notin> set p \<Longrightarrow> SplitN (p @ sep # n) sep 2 = [p, n]"
proof -
  assume "sep \<notin> set p"
  then have "\<And>x. x \<in> set p \<Longrightarrow> x \<noteq> sep" by blast
  then have "takeWhile (\<lambda>c. c \<noteq> sep) (p @ sep # n) = p"
    and "dropWhile (\<lambda>c. c \<noteq> sep) (p @ sep # n) = sep # n"
    by (simp_all add: takeWhile_append2 dropWhile_append2)
  then show ?thesis by (simp add: SplitN_2_mem)
qed

lemma split_at_first:
  "sep \<in> set s \<Longrightarrow>
   s = takeWhile (\<lambda>c. c \<noteq> sep) s @ sep # tl (dropWhile (\<lambda>c. c \<noteq> sep) s)"
proof -
  assume m: "sep \<in> set s"
  then have "dropWhile (\<lambda>c. c \<noteq> sep) s \<noteq> []" by (simp add: dropWhile_eq_Nil_conv)
  moreover have "hd (dropWhile (\<lambda>c. c \<noteq> sep) s) = sep"
    using m hd_dropWhile [of "\<lambda>c. c \<noteq> sep" s] calculation by auto
  ultimately have "dropWhile (\<lambda>c. c \<noteq> sep) s = sep # tl (dropWhile (\<lambda>c. c \<noteq> sep) s)"
    by (metis list.collapse)
  then show ?thesis
    by (metis takeWhile_dropWhile_id)
qed

lemma Clean_nonempty: "Clean p \<noteq> []"
  by (simp add: Clean_def Let_def)

subsection \<open>The matcher lookup never reports an error\<close>

lemma matchers_compile: "list_all (\<lambda>m. isl (Compile (pattern m)) = False) matchers"
  by code_simp

lemma match_loop_total:
  "list_all (\<lambda>m. isl (Compile (pattern m)) = False) ms \<Longrightarrow>
   \<exists>u g. match_loop ms path = Inr (u, g)"
  by (induction ms) (auto simp: Let_def split: sum.splits)

lemma parseGitURLandPath_total: "\<exists>u g. parseGitURLandPath path = Inr (u, g)"
  unfolding parseGitURLandPath_def using match_loop_total [OF matchers_compile] .

lemma ParseTarget_total:
  assumes "CHR ''+'' \<in> set s"
  shows "\<exists>t. ParseTarget s = Inr t \<and> Target t = tl (dropWhile (\<lambda>c. c \<noteq> CHR ''+'') s)"
proof -
  obtain u g where
    "parseGitURLandPath (SplitN (takeWhile (\<lambda>c. c \<noteq> CHR ''+'') s) (CHR '':'') 2 ! 0) = Inr (u, g)"
    using parseGitURLandPath_total by blast
  then show ?thesis
    using assms by (simp add: ParseTarget_def SplitN_2_mem Let_def)
qed

subsection \<open>Join with a remote caller\<close>

text \<open>With a remote caller, every reference that is not remote ends in the panic.\<close>

lemma JoinTargets_remote_caller:
  "IsRemote caller \<Longrightarrow>
   JoinTargets caller ref = (if IsRemote ref then Inr ref else Inl (Panic ''TODO''))"
  by (simp add: JoinTargets_def)

text \<open>
  C1: with a Remote caller and a reference that is not Remote, join should return a Remote
  reference that inherits the caller's \<open>git_url\<close> and \<open>tag\<close>, with the joined sub-path,
  and should fail with a ContextError on an absolute \<open>local_path\<close>. On the callers and
  references of scenario S4 \<open>JoinTargets\<close> returns neither: it panics with the message
  \<open>TODO\<close>, for the relative and for the absolute path alike.
\<close>

theorem JoinTargets_remote_caller_panics:
  "JoinTargets
     \<lparr>GitURL = ''github.com/acme/widgets'', GitPath = ''examples/go'', Tag = ''main'',
      LocalPath = [], Target = []\<rparr>
     \<lparr>GitURL = [], GitPath = [], Tag = [], LocalPath = ''./sub'', Target = ''t''\<rparr> =
   Inl (Panic ''TODO'') \<and>
   JoinTargets
     \<lparr>GitURL = ''github.com/acme/widgets'', GitPath = ''examples/go'', Tag = ''main'',
      LocalPath = [], Target = []\<rparr>
     \<lparr>GitURL = [], GitPath = [], Tag = [], LocalPath = ''/sub'', Target = ''t''\<rparr> =
   Inl (Panic ''TODO'')"
  by code_simp

subsection \<open>Parse and render\<close>

text \<open>
  C2, as the specification states it: rendering the parsed reference reproduces the input.
  The input \<open>./sub/../dir+test\<close> contains no white space, parses to a LocalExternal
  reference with the cleaned path \<open>./dir\<close>, and renders as \<open>./dir+test\<close>.
\<close>

theorem String_ParseTarget_counterexample:
  "ParseTarget ''./sub/../dir+test'' =
     Inr \<lparr>GitURL = [], GitPath = [], Tag = [], LocalPath = ''./dir'', Target = ''test''\<rparr> \<and>
   IsLocalExternal
     \<lparr>GitURL = [], GitPath = [], Tag = [], LocalPath = ''./dir'', Target = ''test''\<rparr> \<and>
   String \<lparr>GitURL = [], GitPath = [], Tag = [], LocalPath = ''./dir'', Target = ''test''\<rparr> =
     ''./dir+test'' \<and>
   ''./dir+test'' \<noteq> ''./sub/../dir+test''"
  by code_simp

text \<open>
  C2, amended: for an input \<open>p+n\<close> whose prefix \<open>p\<close> has no \<open>+\<close> and is empty or begins
  with \<open>.\<close> or \<open>/\<close> (the two local origins), parse succeeds with a local reference, and
  rendering it reproduces the input exactly when \<open>p\<close> is empty or is already the path that
  parse stores: \<open>p\<close> is not \<open>.\<close>, and either \<open>p\<close> is its own cleaned form, or \<open>p\<close> is \<open>./\<close>
  followed by its cleaned form and that form does not begin with \<open>.\<close>. No white space is
  changed.
\<close>

theorem String_ParseTarget_local:
  assumes "CHR ''+'' \<notin> set p"
      and "p = [] \<or> HasPrefix p ''.'' \<or> HasPrefix p ''/''"
  shows "\<exists>t. ParseTarget (p @ ''+'' @ n) = Inr t \<and> \<not> IsRemote t \<and>
           (String t = p @ ''+'' @ n \<longleftrightarrow>
              p = [] \<or>
              p \<noteq> ''.'' \<and> (Clean p = p \<or> ''./'' @ Clean p = p \<and> \<not> HasPrefix (Clean p) ''.''))"
proof (cases "p = []")
  case True
  then show ?thesis
    by (simp add: ParseTarget_def numeral_2_eq_2 String_def IsRemote_def
        IsLocalInternal_def IsLocalExternal_def)
next
  case False
  define lp where "lp = (if IsAbs p then Clean p
                else if \<not> HasPrefix (Clean p) ''.'' then ''./'' @ Clean p
                else Clean p)"
  define t where "t = \<lparr>GitURL = [], GitPath = [], Tag = [], LocalPath = lp, Target = n\<rparr>"
  have sp: "SplitN (p @ ''+'' @ n) (CHR ''+'') 2 = [p, n]"
    using SplitN_2_append [OF assms(1), of n] by simp
  have pre: "HasPrefix p ''.'' \<or> HasPrefix p ''/''" using assms(2) False by simp
  have parse: "ParseTarget (p @ ''+'' @ n) = Inr t"
    unfolding ParseTarget_def sp using False pre by (simp add: Let_def t_def lp_def)
  have lp_ne: "lp \<noteq> []" by (simp add: lp_def Clean_nonempty)
  have nr: "\<not> IsRemote t"
    using lp_ne by (simp add: IsRemote_def IsLocalExternal_def IsLocalInternal_def t_def)
  have str: "String t = (if lp = ''.'' then ''+'' @ n else lp @ ''+'' @ n)"
    using lp_ne by (simp add: String_def IsRemote_def IsLocalExternal_def IsLocalInternal_def t_def)
  have abs_dot: "IsAbs p \<longleftrightarrow> \<not> HasPrefix p ''.''"
    using pre False by (cases p) (auto simp: IsAbs_def HasPrefix_def)
  have eq: "String t = p @ ''+'' @ n \<longleftrightarrow> lp \<noteq> ''.'' \<and> lp = p"
    using False by (auto simp: str)
  have "lp \<noteq> ''.'' \<and> lp = p \<longleftrightarrow>
        p \<noteq> ''.'' \<and> (Clean p = p \<or> ''./'' @ Clean p = p \<and> \<not> HasPrefix (Clean p) ''.'')"
  proof (cases "IsAbs p")
    case True
    then have "lp = Clean p" by (simp add: lp_def)
    moreover have "''./'' @ Clean p \<noteq> p" using True by (cases p) (auto simp: IsAbs_def)
    ultimately show ?thesis by auto
  next
    case rel: False
    then have dot: "HasPrefix p ''.''" using abs_dot by simp
    show ?thesis
    proof (cases "HasPrefix (Clean p) ''.''")
      case True
      then have "lp = Clean p" using rel by (simp add: lp_def)
      then show ?thesis using True by auto
    next
      case False
      then have "lp = ''./'' @ Clean p" using rel by (simp add: lp_def)
      moreover have "Clean p \<noteq> p" using False dot by auto
      ultimately show ?thesis using False by auto
    qed
  qed
  with eq parse nr False show ?thesis by auto
qed

theorem String_ParseTarget_local_witness:
  "CHR ''+'' \<notin> set ''./sub/dir'' \<and>
   (''./sub/dir'' = [] \<or> HasPrefix ''./sub/dir'' ''.'' \<or> HasPrefix ''./sub/dir'' ''/'') \<and>
   (\<exists>t. ParseTarget ''./sub/dir+test'' = Inr t \<and> \<not> IsRemote t \<and>
        String t = ''./sub/dir+test'')"
proof -
  have h1: "CHR ''+'' \<notin> set ''./sub/dir''" by simp
  have h2: "''./sub/dir'' = [] \<or> HasPrefix ''./sub/dir'' ''.'' \<or> HasPrefix ''./sub/dir'' ''/''"
    by (simp add: HasPrefix_def)
  have e: "Clean ''./sub/dir'' = ''sub/dir''" by code_simp
  show ?thesis
    using h1 h2 String_ParseTarget_local [OF h1 h2, of "''test''"]
    by (auto simp: e HasPrefix_def)
qed

text \<open>
  C3: parsing \<open>github.com/acme/widgets:v1.2+release\<close> yields the Remote reference of the
  scenario, and its canonical rendering should be the input. The fields are those of the
  scenario; the canonical rendering has a slash between the empty \<open>GitPath\<close> and the tag,
  and differs from the input.
\<close>

theorem StringCanonical_remote_extra_slash:
  "ParseTarget ''github.com/acme/widgets:v1.2+release'' =
     Inr \<lparr>GitURL = ''github.com/acme/widgets'', GitPath = [], Tag = ''v1.2'', LocalPath = [],
          Target = ''release''\<rparr> \<and>
   StringCanonical
     \<lparr>GitURL = ''github.com/acme/widgets'', GitPath = [], Tag = ''v1.2'', LocalPath = [],
      Target = ''release''\<rparr> = ''github.com/acme/widgets/:v1.2+release'' \<and>
   ''github.com/acme/widgets/:v1.2+release'' \<noteq> ''github.com/acme/widgets:v1.2+release''"
  by code_simp

text \<open>
  C4: a remote prefix that no matcher pattern accepts should make parse fail with an
  UnresolvedRemote error. For \<open>example.com/acme/widgets\<close> the lookup returns two empty
  strings and no error, and parse returns a reference.
\<close>

theorem ParseTarget_unmatched_remote_succeeds:
  "parseGitURLandPath ''example.com/acme/widgets'' = Inr ([], []) \<and>
   ParseTarget ''example.com/acme/widgets:v1.2+release'' =
     Inr \<lparr>GitURL = [], GitPath = [], Tag = ''v1.2'', LocalPath = [], Target = ''release''\<rparr>"
  by code_simp

subsection \<open>Join with a local caller\<close>

text \<open>For a non-empty first element, \<open>Join\<close> of two paths cleans \<open>first/second\<close>.\<close>

lemma Join_two: "a \<noteq> [] \<Longrightarrow> Join [a, b] = Clean (a @ ''/'' @ b)"
  by simp

text \<open>
  C5: for a local caller (LocalInternal or LocalExternal), \<open>JoinTargets\<close> returns the
  reference with only its \<open>LocalPath\<close> changed: a LocalExternal reference with an absolute
  path keeps the cleaned path; a LocalExternal reference with a relative path gets the
  caller's path joined with its own by \<open>path.Join\<close>, which here is the cleaned
  \<open>caller/ref\<close>, with \<open>./\<close> put in front when the joined path does not begin with \<open>.\<close>; a
  LocalInternal reference gets the caller's path; a Remote reference is returned
  unchanged.
\<close>

theorem JoinTargets_local_caller:
  assumes "IsLocalInternal caller \<or> IsLocalExternal caller"
  shows "(IsLocalExternal ref \<and> IsAbs (LocalPath ref) \<longrightarrow>
            JoinTargets caller ref = Inr (ref\<lparr>LocalPath := Clean (LocalPath ref)\<rparr>)) \<and>
         (IsLocalExternal ref \<and> \<not> IsAbs (LocalPath ref) \<longrightarrow>
            Join [LocalPath caller, LocalPath ref] =
              Clean (LocalPath caller @ ''/'' @ LocalPath ref) \<and>
            JoinTargets caller ref =
              Inr (ref\<lparr>LocalPath :=
                     (if HasPrefix (Join [LocalPath caller, LocalPath ref]) ''.''
                      then Join [LocalPath caller, LocalPath ref]
                      else ''./'' @ Join [LocalPath caller, LocalPath ref])\<rparr>)) \<and>
         (IsLocalInternal ref \<longrightarrow>
            JoinTargets caller ref = Inr (ref\<lparr>LocalPath := LocalPath caller\<rparr>)) \<and>
         (IsRemote ref \<longrightarrow> JoinTargets caller ref = Inr ref)"
proof -
  have local: "\<not> IsRemote caller"
    using assms by (auto simp: IsRemote_def)
  have ne: "LocalPath caller \<noteq> []"
    using assms by (auto simp: IsLocalInternal_def IsLocalExternal_def)
  have c1: "IsLocalExternal ref \<and> IsAbs (LocalPath ref) \<longrightarrow>
            JoinTargets caller ref = Inr (ref\<lparr>LocalPath := Clean (LocalPath ref)\<rparr>)"
    using local by (simp add: JoinTargets_def)
  have c2: "IsLocalExternal ref \<and> \<not> IsAbs (LocalPath ref) \<longrightarrow>
            Join [LocalPath caller, LocalPath ref] =
              Clean (LocalPath caller @ ''/'' @ LocalPath ref) \<and>
            JoinTargets caller ref =
              Inr (ref\<lparr>LocalPath :=
                     (if HasPrefix (Join [LocalPath caller, LocalPath ref]) ''.''
                      then Join [LocalPath caller, LocalPath ref]
                      else ''./'' @ Join [LocalPath caller, LocalPath ref])\<rparr>)"
    using local Join_two [OF ne] by (simp add: JoinTargets_def Let_def del: Join.simps)
  have c3: "IsLocalInternal ref \<longrightarrow>
            JoinTargets caller ref = Inr (ref\<lparr>LocalPath := LocalPath caller\<rparr>)"
    using local by (auto simp: JoinTargets_def IsLocalInternal_def IsLocalExternal_def)
  have c4: "IsRemote ref \<longrightarrow> JoinTargets caller ref = Inr ref"
    using local by (simp add: JoinTargets_def IsRemote_def)
  from c1 c2 c3 c4 show ?thesis by blast
qed

theorem JoinTargets_local_caller_witness:
  "(IsLocalInternal \<lparr>GitURL = [], GitPath = [], Tag = [], LocalPath = ''./a'', Target = ''x''\<rparr> \<or>
    IsLocalExternal \<lparr>GitURL = [], GitPath = [], Tag = [], LocalPath = ''./a'', Target = ''x''\<rparr>) \<and>
   JoinTargets \<lparr>GitURL = [], GitPath = [], Tag = [], LocalPath = ''./a'', Target = ''x''\<rparr>
               \<lparr>GitURL = [], GitPath = [], Tag = [], LocalPath = ''../b'', Target = ''t''\<rparr> =
     Inr \<lparr>GitURL = [], GitPath = [], Tag = [], LocalPath = ''./b'', Target = ''t''\<rparr> \<and>
   JoinTargets \<lparr>GitURL = [], GitPath = [], Tag = [], LocalPath = ''./a'', Target = ''x''\<rparr>
               \<lparr>GitURL = [], GitPath = [], Tag = [], LocalPath = ''/opt//src/'', Target = ''t''\<rparr> =
     Inr \<lparr>GitURL = [], GitPath = [], Tag = [], LocalPath = ''/opt/src'', Target = ''t''\<rparr> \<and>
   JoinTargets \<lparr>GitURL = [], GitPath = [], Tag = [], LocalPath = ''./a'', Target = ''x''\<rparr>
               \<lparr>GitURL = [], GitPath = [], Tag = [], LocalPath = ''.'', Target = ''t''\<rparr> =
     Inr \<lparr>GitURL = [], GitPath = [], Tag = [], LocalPath = ''./a'', Target = ''t''\<rparr> \<and>
   JoinTargets \<lparr>GitURL = [], GitPath = [], Tag = [], LocalPath = ''./a'', Target = ''x''\<rparr>
               \<lparr>GitURL = ''github.com/acme/widgets'', GitPath = [], Tag = ''v1.2'',
                LocalPath = [], Target = ''t''\<rparr> =
     Inr \<lparr>GitURL = ''github.com/acme/widgets'', GitPath = [], Tag = ''v1.2'', LocalPath = [],
          Target = ''t''\<rparr>"
proof -
  let ?c = "\<lparr>GitURL = [], GitPath = [], Tag = [], LocalPath = ''./a'', Target = ''x''\<rparr>"
  have h: "IsLocalInternal ?c \<or> IsLocalExternal ?c"
    by (simp add: IsLocalExternal_def)
  have e1: "Clean (''./a'' @ ''/'' @ ''../b'') = ''b''" by code_simp
  have e2: "Clean ''/opt//src/'' = ''/opt/src''" by code_simp
  show ?thesis
    using h
      JoinTargets_local_caller [OF h,
        of "\<lparr>GitURL = [], GitPath = [], Tag = [], LocalPath = ''../b'', Target = ''t''\<rparr>"]
      JoinTargets_local_caller [OF h,
        of "\<lparr>GitURL = [], GitPath = [], Tag = [], LocalPath = ''/opt//src/'', Target = ''t''\<rparr>"]
      JoinTargets_local_caller [OF h,
        of "\<lparr>GitURL = [], GitPath = [], Tag = [], LocalPath = ''.'', Target = ''t''\<rparr>"]
      JoinTargets_local_caller [OF h,
        of "\<lparr>GitURL = ''github.com/acme/widgets'', GitPath = [], Tag = ''v1.2'',
            LocalPath = [], Target = ''t''\<rparr>"]
    by (simp add: IsLocalExternal_def IsLocalInternal_def IsRemote_def IsAbs_def HasPrefix_def e1 e2
        del: append.simps)
qed

subsection \<open>The origin classes\<close>

text \<open>
  C6: every reference that parse or join produces should be LocalInternal, or
  LocalExternal with a non-empty path other than \<open>.\<close>, or Remote with a non-empty
  \<open>git_url\<close>. Parse produces from \<open>example.com/acme/widgets+build\<close> a reference that is
  Remote and has an empty \<open>GitURL\<close>, and join with a local caller returns it unchanged.
\<close>

theorem ParseTarget_remote_with_empty_GitURL:
  "ParseTarget ''example.com/acme/widgets+build'' =
     Inr \<lparr>GitURL = [], GitPath = [], Tag = [], LocalPath = [], Target = ''build''\<rparr> \<and>
   JoinTargets \<lparr>GitURL = [], GitPath = [], Tag = [], LocalPath = ''.'', Target = ''all''\<rparr>
               \<lparr>GitURL = [], GitPath = [], Tag = [], LocalPath = [], Target = ''build''\<rparr> =
     Inr \<lparr>GitURL = [], GitPath = [], Tag = [], LocalPath = [], Target = ''build''\<rparr> \<and>
   IsRemote \<lparr>GitURL = [], GitPath = [], Tag = [], LocalPath = [], Target = ''build''\<rparr> \<and>
   \<not> IsLocalInternal \<lparr>GitURL = [], GitPath = [], Tag = [], LocalPath = [], Target = ''build''\<rparr> \<and>
   \<not> IsLocalExternal \<lparr>GitURL = [], GitPath = [], Tag = [], LocalPath = [], Target = ''build''\<rparr> \<and>
   GitURL \<lparr>GitURL = [], GitPath = [], Tag = [], LocalPath = [], Target = ''build''\<rparr> = []"
  by code_simp

text \<open>The three origin predicates themselves exclude one another and cover every value.\<close>

lemma origin_classes:
  "(IsLocalInternal et \<and> \<not> IsLocalExternal et \<and> \<not> IsRemote et) \<or>
   (\<not> IsLocalInternal et \<and> IsLocalExternal et \<and> \<not> IsRemote et) \<or>
   (\<not> IsLocalInternal et \<and> \<not> IsLocalExternal et \<and> IsRemote et)"
  by (auto simp: IsLocalInternal_def IsLocalExternal_def IsRemote_def)

subsection \<open>Canonical rendering\<close>

text \<open>
  C9: parsing the canonical rendering of a reference and rendering the result canonically
  should give the canonical rendering again. For the reference that parse produces from
  \<open>github.com/acme/widgets:v1.2+release\<close> the second rendering has one slash more than
  the first.
\<close>

theorem StringCanonical_not_idempotent:
  "StringCanonical
     \<lparr>GitURL = ''github.com/acme/widgets'', GitPath = [], Tag = ''v1.2'', LocalPath = [],
      Target = ''release''\<rparr> = ''github.com/acme/widgets/:v1.2+release'' \<and>
   ParseTarget ''github.com/acme/widgets/:v1.2+release'' =
     Inr \<lparr>GitURL = ''github.com/acme/widgets'', GitPath = ''/'', Tag = ''v1.2'', LocalPath = [],
          Target = ''release''\<rparr> \<and>
   StringCanonical
     \<lparr>GitURL = ''github.com/acme/widgets'', GitPath = ''/'', Tag = ''v1.2'', LocalPath = [],
      Target = ''release''\<rparr> = ''github.com/acme/widgets//:v1.2+release'' \<and>
   ''github.com/acme/widgets//:v1.2+release'' \<noteq> ''github.com/acme/widgets/:v1.2+release''"
  by code_simp

subsection \<open>More than one plus sign\<close>

text \<open>
  C10: an input with more than one \<open>+\<close> parses without error; it is split at the first
  \<open>+\<close> only, so the input is the prefix without any \<open>+\<close>, the first \<open>+\<close>, and the target
  name, and the target name contains the further \<open>+\<close> characters.
\<close>

theorem ParseTarget_many_plus:
  assumes "1 < count_list s (CHR ''+'')"
  shows "\<exists>t. ParseTarget s = Inr t \<and>
             s = takeWhile (\<lambda>c. c \<noteq> CHR ''+'') s @ CHR ''+'' # Target t \<and>
             CHR ''+'' \<in> set (Target t)"
proof -
  let ?p = "takeWhile (\<lambda>c. c \<noteq> CHR ''+'') s"
  let ?n = "tl (dropWhile (\<lambda>c. c \<noteq> CHR ''+'') s)"
  have m: "CHR ''+'' \<in> set s"
    using assms by (metis count_list_0_iff not_less_zero)
  then obtain t where t: "ParseTarget s = Inr t" "Target t = ?n"
    using ParseTarget_total by blast
  have s: "s = ?p @ CHR ''+'' # ?n" using m by (rule split_at_first)
  have "count_list ?p (CHR ''+'') = 0"
    by (metis (mono_tags, lifting) count_list_0_iff set_takeWhileD)
  then have "count_list s (CHR ''+'') = Suc (count_list ?n (CHR ''+''))"
    by (subst s) simp
  then have "count_list ?n (CHR ''+'') \<noteq> 0"
    using assms by simp
  then have "CHR ''+'' \<in> set ?n"
    by (simp add: count_list_0_iff)
  then show ?thesis using t s by auto
qed

theorem ParseTarget_many_plus_witness:
  "1 < count_list ''./lib+a+b'' (CHR ''+'') \<and>
   (\<exists>t. ParseTarget ''./lib+a+b'' = Inr t \<and> Target t = ''a+b'')"
proof -
  have h: "1 < count_list ''./lib+a+b'' (CHR ''+'')" by simp
  show ?thesis
    using h ParseTarget_many_plus [OF h] by auto
qed

section \<open>Properties of the indentation lexer\<close>

subsection \<open>The token queue\<close>

text \<open>
  The token returned and the queue left behind are the old queue followed by the token
  just read: the queue is first in, first out. Nothing else of the state changes.
\<close>

lemma flushQueue_queue [simp]:
  "fst (flushQueue l peek) # tokenQueue (snd (flushQueue l peek)) = tokenQueue l @ [peek]"
  by (cases "tokenQueue l") (auto simp: flushQueue_def)

lemma flushQueue_rest [simp]:
  "(snd (flushQueue l peek))\<lparr>tokenQueue := []\<rparr> = l\<lparr>tokenQueue := []\<rparr>"
  by (simp add: flushQueue_def)

lemma indent_of_flushQueue [simp]: "indent_of (snd (flushQueue l peek)) = indent_of l"
  by (simp add: flushQueue_def indent_of_def Create_def)

lemma pair_ex:
  "(\<exists>t l'. p = (t, l') \<and> P t l') = P (fst p) (snd p)"
  by (cases p) auto

lemma Create_earthLexer [simp]: "Create (l\<lparr>earthLexer := b\<rparr>) ty = Create l ty"
  by (simp add: Create_def)

subsection \<open>The branches of \<open>NextToken\<close>\<close>

lemma NextToken_WS:
  assumes "next (earthLexer l) = (peek, b)" and "tokenType peek = EarthLexerWS"
  shows "NextToken next l =
           Inr (flushQueue
                  (l\<lparr>earthLexer := b,
                      indentLevel := (if afterNewLine l then indentLevel l + 1 else indentLevel l),
                      wsChannel := channel peek, wsStart := start peek, wsStop := stop peek,
                      wsLine := line peek, wsColumn := column peek\<rparr>) peek)"
  using assms by (simp add: NextToken_def Let_def)

lemma NextToken_NL:
  assumes "next (earthLexer l) = (peek, b)" and "tokenType peek = EarthLexerNL"
  shows "NextToken next l =
           Inr (flushQueue (l\<lparr>earthLexer := b, indentLevel := 0, afterNewLine := True\<rparr>) peek)"
  using assms by (simp add: NextToken_def Let_def)

lemma NextToken_content:
  assumes "next (earthLexer l) = (peek, b)"
      and "tokenType peek \<noteq> EarthLexerWS" and "tokenType peek \<noteq> EarthLexerNL"
      and "tokenType peek \<noteq> EarthLexerHereDoc"
      and "\<not> opensHereDoc (peek, b)"
      and "\<not> (tokenType peek = EarthLexerAtom \<and> isl (TokenGetText b peek))"
  shows "NextToken next l =
           (case indentStep (l\<lparr>earthLexer := b\<rparr>) of
              Inl err \<Rightarrow> Inl err
            | Inr l1 \<Rightarrow> Inr (flushQueue l1 peek))"
  using assms
  by (cases "TokenGetText b peek") (auto simp: NextToken_def Let_def opensHereDoc_def)

lemma indentStep_cases:
  "indentStep l =
     (if afterNewLine l \<and> indentLevel l < prevIndentLevel l \<and> modeStack (earthLexer l) = []
      then Inl (Panic ''Empty Stack'')
      else Inr (l\<lparr>earthLexer :=
                    (if afterNewLine l \<and> indentLevel l < prevIndentLevel l
                     then (earthLexer l)\<lparr>mode := last (modeStack (earthLexer l)),
                                          modeStack := butlast (modeStack (earthLexer l))\<rparr>
                     else earthLexer l),
                  prevIndentLevel := indentLevel l, afterNewLine := False,
                  tokenQueue := tokenQueue l @
                    (if afterNewLine l \<and> prevIndentLevel l < indentLevel l
                     then [Create l EarthLexerINDENT]
                     else if afterNewLine l \<and> indentLevel l < prevIndentLevel l
                     then [Create l EarthLexerDEDENT] else [])\<rparr>))"
  by (auto simp: indentStep_def PopMode_def)


subsection \<open>Here-documents\<close>

text \<open>
  Whatever lexer reads the tokens and whatever tag follows \<open><<\<close>: when the text of the 19
  characters after the six characters that follow the start of the atom does not contain
  \<open>EOF\<close>, \<open>NextToken\<close> panics.
\<close>

lemma NextToken_hereDoc_window:
  assumes "next (earthLexer l) = (peek, b)"
      and "tokenType peek = EarthLexerAtom"
      and "TokenGetText b peek = Inr t"
      and "HasPrefix t ''<<''"
      and "GetText b (start peek + 6) (start peek + 24) = Inr s"
      and "Index s ''EOF'' < 0"
  shows "NextToken next l = Inl (Panic ''EOF not found'')"
proof -
  have "hereDocAtom (l\<lparr>earthLexer := b\<rparr>) b peek = Inl (Panic ''EOF not found'')"
    using assms(5,6) by (simp add: hereDocAtom_def Let_def add.commute)
  then show ?thesis
    using assms(1,2,3,4) by (simp add: NextToken_def Let_def)
qed

text \<open>
  C7: an atom that begins with \<open><<TAG\<close> should open a here-document for any identifier
  TAG, the body running up to a line that consists of TAG; reaching the end of the input
  first is a LexError. With the tag \<open>END\<close> and the closing line \<open>END\<close> present,
  \<open>NextToken\<close> panics with \<open>EOF not found\<close>: it searches for the constant \<open>EOF\<close>. With the
  tag \<open>EOF\<close> and a body of 20 characters it panics in the same way: it searches only the
  19 characters after the opening line.
\<close>

theorem NextToken_hereDoc_panics:
  "NextToken specNextToken
     (newLexer (NewInputStream
        (''<<END'' @ [CHR 0x0A] @ ''hello'' @ [CHR 0x0A] @ ''END'' @ [CHR 0x0A]))) =
     Inl (Panic ''EOF not found'') \<and>
   NextToken specNextToken
     (newLexer (NewInputStream
        (''<<EOF'' @ [CHR 0x0A] @ ''0123456789abcdefghij'' @ [CHR 0x0A] @ ''EOF'' @ [CHR 0x0A]))) =
     Inl (Panic ''EOF not found'')"
  by code_simp

text \<open>
  With the tag \<open>EOF\<close>, a short body and a lexer mode to pop, the atom is returned with the
  body as its text, and the read index stands right after the characters \<open>EOF\<close>. With an
  empty body the stored text is empty, and the text of the token is still that of the
  opening atom.
\<close>

lemma NextToken_hereDoc_EOF_tag:
  "map_sum id
     (\<lambda>r. (tokenType (fst r), TokenGetText (earthLexer (snd r)) (fst r), index (earthLexer (snd r))))
     (NextToken specNextToken
        (lexer_at (''<<EOF'' @ [CHR 0x0A] @ ''hello'' @ [CHR 0x0A] @ ''EOF'' @ [CHR 0x0A])
           0 0 0 False [0, 1])) =
   Inr (EarthLexerAtom, Inr (''hello'' @ [CHR 0x0A]), 15) \<and>
   map_sum id
     (\<lambda>r. (tokenType (fst r), TokenGetText (earthLexer (snd r)) (fst r), index (earthLexer (snd r))))
     (NextToken specNextToken
        (lexer_at (''<<EOF'' @ [CHR 0x0A] @ ''EOF'' @ [CHR 0x0A]) 0 0 0 False [0, 1])) =
   Inr (EarthLexerAtom, Inr ''<<EOF'', 9)"
  by code_simp

subsection \<open>Indentation\<close>

text \<open>
  A run of calls that reads no here-document opener returns, followed by what is left in
  the queue, the tokens read with the synthetic tokens of \<open>with_indents\<close>: first for one
  call, then for any number of calls.
\<close>

lemma flushQueue_queue_append [simp]:
  "fst (flushQueue l peek) # tokenQueue (snd (flushQueue l peek)) @ xs = tokenQueue l @ peek # xs"
  using flushQueue_queue [of l peek] by (metis append_Cons append_Nil append_assoc)

lemma token_without_text:
  "tokenType p = ty \<Longrightarrow>
   p\<lparr>tokenText := []\<rparr> =
   \<lparr>tokenType = ty, tokenText = [], channel = channel p, start = start p, stop = stop p,
    line = line p, column = column p\<rparr>"
  by (cases p) simp

lemma Inr_pair_projs: "x = Inr (t, l1) \<Longrightarrow> x = Inr p \<Longrightarrow> t = fst p \<and> l1 = snd p"
  by (cases p) simp

lemma NextToken_refines:
  assumes ok: "NextToken next l = Inr (t, l1)"
      and plain: "\<not> opensHereDoc (next (earthLexer l))"
  shows "t # tokenQueue l1 @ with_indents (indent_of l1) ps =
         tokenQueue l @ with_indents (indent_of l) (fst (next (earthLexer l)) # ps)"
proof -
  obtain peek b where nx: "next (earthLexer l) = (peek, b)" by fastforce
  have hd: "tokenType peek \<noteq> EarthLexerHereDoc"
    using ok nx by (auto simp: NextToken_def Let_def)
  consider (ws) "tokenType peek = EarthLexerWS" | (nl) "tokenType peek = EarthLexerNL"
    | (other) "tokenType peek \<noteq> EarthLexerWS" "tokenType peek \<noteq> EarthLexerNL"
    by blast
  then show ?thesis
  proof cases
    case ws
    define l2 where "l2 = l\<lparr>earthLexer := b,
                 indentLevel := (if afterNewLine l then indentLevel l + 1 else indentLevel l),
                 wsChannel := channel peek, wsStart := start peek, wsStop := stop peek,
                 wsLine := line peek, wsColumn := column peek\<rparr>"
    have "NextToken next l = Inr (flushQueue l2 peek)"
      unfolding l2_def using nx ws by (rule NextToken_WS)
    then have r: "t = fst (flushQueue l2 peek)" "l1 = snd (flushQueue l2 peek)"
      using Inr_pair_projs [OF ok] by simp_all
    have q: "tokenQueue l2 = tokenQueue l" by (simp add: l2_def)
    have st: "indent_of l2 =
              (indent_of l)\<lparr>current := (if line_begins (indent_of l) then current (indent_of l) + 1
                                          else current (indent_of l)),
                             last_ws := peek\<lparr>tokenText := []\<rparr>\<rparr>"
      using ws by (simp add: l2_def indent_of_def Create_def token_without_text)
    show ?thesis
      unfolding r nx using ws by (simp add: st q)
  next
    case nl
    define l2 where "l2 = l\<lparr>earthLexer := b, indentLevel := 0, afterNewLine := True\<rparr>"
    have "NextToken next l = Inr (flushQueue l2 peek)"
      unfolding l2_def using nx nl by (rule NextToken_NL)
    then have r: "t = fst (flushQueue l2 peek)" "l1 = snd (flushQueue l2 peek)"
      using Inr_pair_projs [OF ok] by simp_all
    have q: "tokenQueue l2 = tokenQueue l" by (simp add: l2_def)
    have st: "indent_of l2 = (indent_of l)\<lparr>current := 0, line_begins := True\<rparr>"
      by (simp add: l2_def indent_of_def Create_def)
    show ?thesis
      unfolding r nx using nl by (simp add: st q)
  next
    case other
    have noerr: "\<not> (tokenType peek = EarthLexerAtom \<and> isl (TokenGetText b peek))"
      using ok nx other hd by (auto simp: NextToken_def Let_def split: sum.splits)
    have c: "NextToken next l =
               (case indentStep (l\<lparr>earthLexer := b\<rparr>) of
                  Inl err \<Rightarrow> Inl err
                | Inr l1 \<Rightarrow> Inr (flushQueue l1 peek))"
      using nx other hd plain noerr by (intro NextToken_content) simp_all
    then obtain l2 where l2: "indentStep (l\<lparr>earthLexer := b\<rparr>) = Inr l2"
      and nt: "NextToken next l = Inr (flushQueue l2 peek)"
      using ok by (cases "indentStep (l\<lparr>earthLexer := b\<rparr>)") simp_all
    have r: "t = fst (flushQueue l2 peek)" "l1 = snd (flushQueue l2 peek)"
      using Inr_pair_projs [OF ok nt] by simp_all
    define syn where "syn = (if afterNewLine l \<and> prevIndentLevel l < indentLevel l
                 then [Create l EarthLexerINDENT]
                 else if afterNewLine l \<and> indentLevel l < prevIndentLevel l
                 then [Create l EarthLexerDEDENT] else [])"
    have q: "tokenQueue l2 = tokenQueue l @ syn"
      and st: "indent_of l2 = (indent_of l)\<lparr>recorded := current (indent_of l), line_begins := False\<rparr>"
      using l2 by (auto simp: syn_def indentStep_cases indent_of_def Create_def split: if_splits)
    have syn: "(if line_begins (indent_of l) \<and> recorded (indent_of l) < current (indent_of l)
       then [synthetic (indent_of l) EarthLexerINDENT]
       else if line_begins (indent_of l) \<and> current (indent_of l) < recorded (indent_of l)
       then [synthetic (indent_of l) EarthLexerDEDENT] else []) = syn"
      by (simp add: syn_def indent_of_def synthetic_def Create_def)
    have w: "with_indents (indent_of l) (peek # ps) =
             syn @ peek # with_indents (indent_of l2) ps"
      unfolding with_indents.simps(2) st by (simp only: other if_False syn)
    show ?thesis
      unfolding r nx fst_conv w by (simp add: q)
  qed
qed

lemma NextTokens_refines:
  "NextTokens next n l = Inr (ts, l') \<Longrightarrow> \<not> list_ex opensHereDoc (reads next n l) \<Longrightarrow>
   ts @ tokenQueue l' = tokenQueue l @ with_indents (indent_of l) (map fst (reads next n l))"
proof (induction n arbitrary: l ts)
  case 0
  then show ?case by simp
next
  case (Suc n)
  from Suc.prems(1) obtain t l1 ts1 where
    step: "NextToken next l = Inr (t, l1)" and rest: "NextTokens next n l1 = Inr (ts1, l')"
    and ts: "ts = t # ts1"
    by (auto split: sum.splits prod.splits)
  have rd: "reads next (Suc n) l = next (earthLexer l) # reads next n l1"
    using step by simp
  have plain: "\<not> opensHereDoc (next (earthLexer l))" "\<not> list_ex opensHereDoc (reads next n l1)"
    using Suc.prems(2) unfolding rd by simp_all
  have "ts1 @ tokenQueue l' = tokenQueue l1 @ with_indents (indent_of l1) (map fst (reads next n l1))"
    using Suc.IH [OF rest plain(2)] .
  then have "ts @ tokenQueue l' =
             t # tokenQueue l1 @ with_indents (indent_of l1) (map fst (reads next n l1))"
    by (simp add: ts)
  also have "\<dots> = tokenQueue l @
                  with_indents (indent_of l) (fst (next (earthLexer l)) # map fst (reads next n l1))"
    using step plain(1) by (rule NextToken_refines)
  finally show ?case unfolding rd by simp
qed

text \<open>
  C8, as the specification states it: the indent level of a line is measured in visible
  columns, an INDENT is emitted when it is greater than the level recorded before, and
  one DEDENT for each level closed. In the text of three lines indented by 0, 2 and 4
  columns the lexer emits one INDENT, before \<open>b\<close>, and none before \<open>c\<close>; with a fourth line
  at column 0 it emits a single DEDENT before \<open>d\<close>. (The text of a synthetic token is
  that of the last white space.)
\<close>

theorem NextToken_indentation_counterexample:
  "spec_visible_columns ''  '' < spec_visible_columns ''    '' \<and>
   kinds (NextTokens specNextToken 9 (newLexer (NewInputStream deeper_lines))) =
     Inr [(EarthLexerAtom, Inr ''a''), (EarthLexerNL, Inr [CHR 0x0A]),
          (EarthLexerWS, Inr ''  ''), (EarthLexerINDENT, Inr ''  ''),
          (EarthLexerAtom, Inr ''b''), (EarthLexerNL, Inr [CHR 0x0A]),
          (EarthLexerWS, Inr ''    ''), (EarthLexerAtom, Inr ''c''),
          (TokenEOF, Inr ''<EOF>'')] \<and>
   kinds (NextTokens specNextToken 12 (lexer_at closing_lines 0 0 0 False [1])) =
     Inr [(EarthLexerAtom, Inr ''a''), (EarthLexerNL, Inr [CHR 0x0A]),
          (EarthLexerWS, Inr ''  ''), (EarthLexerINDENT, Inr ''  ''),
          (EarthLexerAtom, Inr ''b''), (EarthLexerNL, Inr [CHR 0x0A]),
          (EarthLexerWS, Inr ''    ''), (EarthLexerAtom, Inr ''c''),
          (EarthLexerNL, Inr [CHR 0x0A]), (EarthLexerDEDENT, Inr ''    ''),
          (EarthLexerAtom, Inr ''d''), (TokenEOF, Inr ''<EOF>'')]"
  by code_simp

text \<open>
  C8, amended. The indent level of a line is the number of WS tokens that the embedded
  lexer has returned since the last NL token: an NL token sets it to 0 and marks the
  start of a line, and the text of a WS token, blanks or tabs, is not looked at. At a
  token that is not WS, NL, a here-document token or an atom whose text begins with
  \<open><<\<close>, and only at the start of a line, the level is compared with the level recorded
  at the previous such token: when it is greater, exactly one INDENT is appended to the
  token queue; when it is less, exactly one DEDENT, however far the level has dropped,
  and one lexer mode is popped (with an empty mode stack the call panics). The token read
  is appended directly after the synthetic token, the level becomes the recorded one,
  and the start-of-line mark is cleared; nothing else of the state changes. Every call
  returns the head of the queue, so that in a run of calls that reads no atom whose text
  begins with \<open><<\<close>, the tokens returned, followed by the tokens left in the queue, are
  the tokens read, in their order, each synthetic token directly before the first such
  token of its line.
\<close>

theorem NextToken_indentation:
  "(next (earthLexer l) = (peek, b) \<longrightarrow>
      (tokenType peek = EarthLexerWS \<longrightarrow>
         (\<exists>t l'. NextToken next l = Inr (t, l') \<and> t # tokenQueue l' = tokenQueue l @ [peek] \<and>
            l'\<lparr>tokenQueue := []\<rparr> =
              l\<lparr>earthLexer := b,
                 indentLevel := (if afterNewLine l then indentLevel l + 1 else indentLevel l),
                 tokenQueue := [],
                 wsChannel := channel peek, wsStart := start peek, wsStop := stop peek,
                 wsLine := line peek, wsColumn := column peek\<rparr>)) \<and>
      (tokenType peek = EarthLexerNL \<longrightarrow>
         (\<exists>t l'. NextToken next l = Inr (t, l') \<and> t # tokenQueue l' = tokenQueue l @ [peek] \<and>
            l'\<lparr>tokenQueue := []\<rparr> =
              l\<lparr>earthLexer := b, indentLevel := 0, afterNewLine := True, tokenQueue := []\<rparr>)) \<and>
      (tokenType peek \<noteq> EarthLexerWS \<and> tokenType peek \<noteq> EarthLexerNL \<and>
       tokenType peek \<noteq> EarthLexerHereDoc \<and> \<not> opensHereDoc (peek, b) \<and>
       \<not> (tokenType peek = EarthLexerAtom \<and> isl (TokenGetText b peek)) \<longrightarrow>
         (afterNewLine l \<and> indentLevel l < prevIndentLevel l \<and> modeStack b = [] \<longrightarrow>
            NextToken next l = Inl (Panic ''Empty Stack'')) \<and>
         (\<not> (afterNewLine l \<and> indentLevel l < prevIndentLevel l \<and> modeStack b = []) \<longrightarrow>
            (\<exists>t l'. NextToken next l = Inr (t, l') \<and>
               t # tokenQueue l' =
                 tokenQueue l @
                 (if afterNewLine l \<and> prevIndentLevel l < indentLevel l
                  then [Create l EarthLexerINDENT]
                  else if afterNewLine l \<and> indentLevel l < prevIndentLevel l
                  then [Create l EarthLexerDEDENT]
                  else []) @ [peek] \<and>
               l'\<lparr>tokenQueue := []\<rparr> =
                 l\<lparr>earthLexer :=
                      (if afterNewLine l \<and> indentLevel l < prevIndentLevel l
                       then b\<lparr>mode := last (modeStack b), modeStack := butlast (modeStack b)\<rparr>
                       else b),
                    prevIndentLevel := indentLevel l, afterNewLine := False,
                    tokenQueue := []\<rparr>)))) \<and>
   (NextTokens next n m = Inr (ts, m') \<and> \<not> list_ex opensHereDoc (reads next n m) \<longrightarrow>
      ts @ tokenQueue m' =
        tokenQueue m @ with_indents (indent_of m) (map fst (reads next n m)))"
proof (intro conjI impI)
  assume nx: "next (earthLexer l) = (peek, b)" and ws: "tokenType peek = EarthLexerWS"
  show "\<exists>t l'. NextToken next l = Inr (t, l') \<and> t # tokenQueue l' = tokenQueue l @ [peek] \<and>
            l'\<lparr>tokenQueue := []\<rparr> =
              l\<lparr>earthLexer := b,
                 indentLevel := (if afterNewLine l then indentLevel l + 1 else indentLevel l),
                 tokenQueue := [],
                 wsChannel := channel peek, wsStart := start peek, wsStop := stop peek,
                 wsLine := line peek, wsColumn := column peek\<rparr>"
    unfolding NextToken_WS [of "next" l peek b, OF nx ws] by (simp add: pair_ex)
next
  assume nx: "next (earthLexer l) = (peek, b)" and nl: "tokenType peek = EarthLexerNL"
  show "\<exists>t l'. NextToken next l = Inr (t, l') \<and> t # tokenQueue l' = tokenQueue l @ [peek] \<and>
            l'\<lparr>tokenQueue := []\<rparr> =
              l\<lparr>earthLexer := b, indentLevel := 0, afterNewLine := True, tokenQueue := []\<rparr>"
    unfolding NextToken_NL [of "next" l peek b, OF nx nl] by (simp add: pair_ex)
next
  assume nx: "next (earthLexer l) = (peek, b)"
    and c: "tokenType peek \<noteq> EarthLexerWS \<and> tokenType peek \<noteq> EarthLexerNL \<and>
       tokenType peek \<noteq> EarthLexerHereDoc \<and> \<not> opensHereDoc (peek, b) \<and>
       \<not> (tokenType peek = EarthLexerAtom \<and> isl (TokenGetText b peek))"
    and e: "afterNewLine l \<and> indentLevel l < prevIndentLevel l \<and> modeStack b = []"
  have "NextToken next l =
          (case indentStep (l\<lparr>earthLexer := b\<rparr>) of
             Inl err \<Rightarrow> Inl err
           | Inr l1 \<Rightarrow> Inr (flushQueue l1 peek))"
    using nx c by (intro NextToken_content) simp_all
  then show "NextToken next l = Inl (Panic ''Empty Stack'')"
    using e by (simp add: indentStep_cases)
next
  assume nx: "next (earthLexer l) = (peek, b)"
    and c: "tokenType peek \<noteq> EarthLexerWS \<and> tokenType peek \<noteq> EarthLexerNL \<and>
       tokenType peek \<noteq> EarthLexerHereDoc \<and> \<not> opensHereDoc (peek, b) \<and>
       \<not> (tokenType peek = EarthLexerAtom \<and> isl (TokenGetText b peek))"
    and e: "\<not> (afterNewLine l \<and> indentLevel l < prevIndentLevel l \<and> modeStack b = [])"
  have "NextToken next l =
          (case indentStep (l\<lparr>earthLexer := b\<rparr>) of
             Inl err \<Rightarrow> Inl err
           | Inr l1 \<Rightarrow> Inr (flushQueue l1 peek))"
    using nx c by (intro NextToken_content) simp_all
  then show "\<exists>t l'. NextToken next l = Inr (t, l') \<and>
               t # tokenQueue l' =
                 tokenQueue l @
                 (if afterNewLine l \<and> prevIndentLevel l < indentLevel l
                  then [Create l EarthLexerINDENT]
                  else if afterNewLine l \<and> indentLevel l < prevIndentLevel l
                  then [Create l EarthLexerDEDENT]
                  else []) @ [peek] \<and>
               l'\<lparr>tokenQueue := []\<rparr> =
                 l\<lparr>earthLexer :=
                      (if afterNewLine l \<and> indentLevel l < prevIndentLevel l
                       then b\<lparr>mode := last (modeStack b), modeStack := butlast (modeStack b)\<rparr>
                       else b),
                    prevIndentLevel := indentLevel l, afterNewLine := False,
                    tokenQueue := []\<rparr>"
    using e by (auto simp: indentStep_cases pair_ex)
next
  assume "NextTokens next n m = Inr (ts, m') \<and> \<not> list_ex opensHereDoc (reads next n m)"
  then show "ts @ tokenQueue m' =
        tokenQueue m @ with_indents (indent_of m) (map fst (reads next n m))"
    using NextTokens_refines by blast
qed

theorem NextToken_indentation_witness:
  "tokenType (fst (specNextToken (earthLexer (lexer_at three_lines 2 0 0 True [])))) = EarthLexerWS \<and>
   (\<exists>t l'. NextToken specNextToken (lexer_at three_lines 2 0 0 True []) = Inr (t, l') \<and>
      indentLevel l' = 1 \<and> prevIndentLevel l' = 0 \<and> afterNewLine l' \<and>
      wsStart l' = 2 \<and> wsStop l' = 3) \<and>
   tokenType (fst (specNextToken (earthLexer (lexer_at three_lines 1 0 0 False [])))) = EarthLexerNL \<and>
   (\<exists>t l'. NextToken specNextToken (lexer_at three_lines 1 0 0 False []) = Inr (t, l') \<and>
      indentLevel l' = 0 \<and> afterNewLine l') \<and>
   tokenType (fst (specNextToken (earthLexer (lexer_at three_lines 4 0 1 True [])))) = EarthLexerAtom \<and>
   (\<exists>t l'. NextToken specNextToken (lexer_at three_lines 4 0 1 True []) = Inr (t, l') \<and>
      map tokenType (t # tokenQueue l') = [EarthLexerINDENT, EarthLexerAtom] \<and>
      prevIndentLevel l' = 1 \<and> \<not> afterNewLine l' \<and> modeStack (earthLexer l') = []) \<and>
   tokenType (fst (specNextToken (earthLexer (lexer_at three_lines 6 1 0 True [1])))) = EarthLexerAtom \<and>
   (\<exists>t l'. NextToken specNextToken (lexer_at three_lines 6 1 0 True [1]) = Inr (t, l') \<and>
      map tokenType (t # tokenQueue l') = [EarthLexerDEDENT, EarthLexerAtom] \<and>
      prevIndentLevel l' = 0 \<and> \<not> afterNewLine l' \<and>
      modeStack (earthLexer l') = [] \<and> mode (earthLexer l') = 1) \<and>
   NextToken specNextToken (lexer_at three_lines 6 1 0 True []) = Inl (Panic ''Empty Stack'') \<and>
   \<not> list_ex opensHereDoc (reads specNextToken 12 (lexer_at closing_lines 0 0 0 False [1])) \<and>
   (\<exists>ts m'. NextTokens specNextToken 12 (lexer_at closing_lines 0 0 0 False [1]) = Inr (ts, m') \<and>
      map tokenType (ts @ tokenQueue m') =
        [EarthLexerAtom, EarthLexerNL, EarthLexerWS, EarthLexerINDENT, EarthLexerAtom,
         EarthLexerNL, EarthLexerWS, EarthLexerAtom, EarthLexerNL, EarthLexerDEDENT,
         EarthLexerAtom, TokenEOF, TokenEOF, TokenEOF])"
proof -
  let ?ws = "lexer_at three_lines 2 0 0 True []"
  let ?nl = "lexer_at three_lines 1 0 0 False []"
  let ?ind = "lexer_at three_lines 4 0 1 True []"
  let ?ded = "lexer_at three_lines 6 1 0 True [1]"
  let ?pan = "lexer_at three_lines 6 1 0 True []"
  let ?run = "lexer_at closing_lines 0 0 0 False [1]"
  have pair: "\<And>l. specNextToken (earthLexer l) =
                 (fst (specNextToken (earthLexer l)), snd (specNextToken (earthLexer l)))"
    by simp
  have ws: "tokenType (fst (specNextToken (earthLexer ?ws))) = EarthLexerWS"
    "afterNewLine ?ws" "indentLevel ?ws = 0" "prevIndentLevel ?ws = 0"
    "start (fst (specNextToken (earthLexer ?ws))) = 2"
    "stop (fst (specNextToken (earthLexer ?ws))) = 3"
    by (code_simp+)
  have c1: "\<exists>t l'. NextToken specNextToken ?ws = Inr (t, l') \<and>
      indentLevel l' = 1 \<and> prevIndentLevel l' = 0 \<and> afterNewLine l' \<and>
      wsStart l' = 2 \<and> wsStop l' = 3"
  proof -
    from NextToken_indentation [of specNextToken ?ws "fst (specNextToken (earthLexer ?ws))"
        "snd (specNextToken (earthLexer ?ws))", THEN conjunct1, rule_format, OF pair, THEN conjunct1, rule_format, OF ws(1)]
    obtain t l' where r: "NextToken specNextToken ?ws = Inr (t, l')"
      and eq: "l'\<lparr>tokenQueue := []\<rparr> =
           ?ws\<lparr>earthLexer := snd (specNextToken (earthLexer ?ws)),
                indentLevel := (if afterNewLine ?ws then indentLevel ?ws + 1 else indentLevel ?ws),
                tokenQueue := [],
                wsChannel := channel (fst (specNextToken (earthLexer ?ws))),
                wsStart := start (fst (specNextToken (earthLexer ?ws))),
                wsStop := stop (fst (specNextToken (earthLexer ?ws))),
                wsLine := line (fst (specNextToken (earthLexer ?ws))),
                wsColumn := column (fst (specNextToken (earthLexer ?ws)))\<rparr>"
      by blast
    have "indentLevel l' = 1" "prevIndentLevel l' = 0" "afterNewLine l'"
      "wsStart l' = 2" "wsStop l' = 3"
      using arg_cong [OF eq, of indentLevel] arg_cong [OF eq, of prevIndentLevel]
        arg_cong [OF eq, of afterNewLine] arg_cong [OF eq, of wsStart]
        arg_cong [OF eq, of wsStop] ws
      by simp_all
    with r show ?thesis by - (rule exI [of _ t], rule exI [of _ l'], simp)
  qed
  have nl: "tokenType (fst (specNextToken (earthLexer ?nl))) = EarthLexerNL"
    by code_simp
  have c2: "\<exists>t l'. NextToken specNextToken ?nl = Inr (t, l') \<and> indentLevel l' = 0 \<and> afterNewLine l'"
  proof -
    from NextToken_indentation [of specNextToken ?nl "fst (specNextToken (earthLexer ?nl))"
        "snd (specNextToken (earthLexer ?nl))", THEN conjunct1, rule_format, OF pair, THEN conjunct2, THEN conjunct1, rule_format, OF nl]
    obtain t l' where r: "NextToken specNextToken ?nl = Inr (t, l')"
      and eq: "l'\<lparr>tokenQueue := []\<rparr> =
           ?nl\<lparr>earthLexer := snd (specNextToken (earthLexer ?nl)), indentLevel := 0,
                afterNewLine := True, tokenQueue := []\<rparr>"
      by blast
    have "indentLevel l' = 0" "afterNewLine l'"
      using arg_cong [OF eq, of indentLevel] arg_cong [OF eq, of afterNewLine] by simp_all
    with r show ?thesis by - (rule exI [of _ t], rule exI [of _ l'], simp)
  qed
  have content: "\<And>l. tokenType (fst (specNextToken (earthLexer l))) = EarthLexerAtom \<Longrightarrow>
      TokenGetText (snd (specNextToken (earthLexer l))) (fst (specNextToken (earthLexer l))) = Inr s \<Longrightarrow>
      \<not> HasPrefix s ''<<'' \<Longrightarrow>
      tokenType (fst (specNextToken (earthLexer l))) \<noteq> EarthLexerWS \<and>
      tokenType (fst (specNextToken (earthLexer l))) \<noteq> EarthLexerNL \<and>
      tokenType (fst (specNextToken (earthLexer l))) \<noteq> EarthLexerHereDoc \<and>
      \<not> opensHereDoc (fst (specNextToken (earthLexer l)), snd (specNextToken (earthLexer l))) \<and>
      \<not> (tokenType (fst (specNextToken (earthLexer l))) = EarthLexerAtom \<and>
         isl (TokenGetText (snd (specNextToken (earthLexer l))) (fst (specNextToken (earthLexer l)))))"
    for s
    by (simp add: opensHereDoc_def)
  have ind: "tokenType (fst (specNextToken (earthLexer ?ind))) = EarthLexerAtom"
    "TokenGetText (snd (specNextToken (earthLexer ?ind))) (fst (specNextToken (earthLexer ?ind))) = Inr ''b''"
    "afterNewLine ?ind" "indentLevel ?ind = 1" "prevIndentLevel ?ind = 0" "tokenQueue ?ind = []"
    "modeStack (snd (specNextToken (earthLexer ?ind))) = []"
    by (code_simp+)
  have c3: "\<exists>t l'. NextToken specNextToken ?ind = Inr (t, l') \<and>
      map tokenType (t # tokenQueue l') = [EarthLexerINDENT, EarthLexerAtom] \<and>
      prevIndentLevel l' = 1 \<and> \<not> afterNewLine l' \<and> modeStack (earthLexer l') = []"
  proof -
    have h: "\<not> HasPrefix ''b'' ''<<''" by (simp add: HasPrefix_def)
    have e: "\<not> (afterNewLine ?ind \<and> indentLevel ?ind < prevIndentLevel ?ind \<and>
                modeStack (snd (specNextToken (earthLexer ?ind))) = [])"
      using ind by simp
    from NextToken_indentation [of specNextToken ?ind "fst (specNextToken (earthLexer ?ind))"
        "snd (specNextToken (earthLexer ?ind))", THEN conjunct1, rule_format, OF pair, THEN conjunct2, THEN conjunct2, rule_format,
        OF content [OF ind(1) ind(2) h], THEN conjunct2, rule_format, OF e]
    obtain t l' where r: "NextToken specNextToken ?ind = Inr (t, l')"
      and q: "t # tokenQueue l' = tokenQueue ?ind @
                 (if afterNewLine ?ind \<and> prevIndentLevel ?ind < indentLevel ?ind
                  then [Create ?ind EarthLexerINDENT]
                  else if afterNewLine ?ind \<and> indentLevel ?ind < prevIndentLevel ?ind
                  then [Create ?ind EarthLexerDEDENT]
                  else []) @ [fst (specNextToken (earthLexer ?ind))]"
      and eq: "l'\<lparr>tokenQueue := []\<rparr> =
                 ?ind\<lparr>earthLexer :=
                      (if afterNewLine ?ind \<and> indentLevel ?ind < prevIndentLevel ?ind
                       then (snd (specNextToken (earthLexer ?ind)))
                              \<lparr>mode := last (modeStack (snd (specNextToken (earthLexer ?ind)))),
                               modeStack := butlast (modeStack (snd (specNextToken (earthLexer ?ind))))\<rparr>
                       else snd (specNextToken (earthLexer ?ind))),
                    prevIndentLevel := indentLevel ?ind, afterNewLine := False,
                    tokenQueue := []\<rparr>"
      by blast
    have "map tokenType (t # tokenQueue l') = [EarthLexerINDENT, EarthLexerAtom]"
      unfolding q using ind by (simp add: Create_def)
    moreover have "prevIndentLevel l' = 1" "\<not> afterNewLine l'" "modeStack (earthLexer l') = []"
      using arg_cong [OF eq, of prevIndentLevel] arg_cong [OF eq, of afterNewLine]
        arg_cong [OF eq, of "\<lambda>x. modeStack (earthLexer x)"] ind
      by simp_all
    ultimately show ?thesis using r by - (rule exI [of _ t], rule exI [of _ l'], simp)
  qed
  have ded: "tokenType (fst (specNextToken (earthLexer ?ded))) = EarthLexerAtom"
    "TokenGetText (snd (specNextToken (earthLexer ?ded))) (fst (specNextToken (earthLexer ?ded))) = Inr ''c''"
    "afterNewLine ?ded" "indentLevel ?ded = 0" "prevIndentLevel ?ded = 1" "tokenQueue ?ded = []"
    "modeStack (snd (specNextToken (earthLexer ?ded))) = [1]"
    by (code_simp+)
  have c4: "\<exists>t l'. NextToken specNextToken ?ded = Inr (t, l') \<and>
      map tokenType (t # tokenQueue l') = [EarthLexerDEDENT, EarthLexerAtom] \<and>
      prevIndentLevel l' = 0 \<and> \<not> afterNewLine l' \<and>
      modeStack (earthLexer l') = [] \<and> mode (earthLexer l') = 1"
  proof -
    have h: "\<not> HasPrefix ''c'' ''<<''" by (simp add: HasPrefix_def)
    have e: "\<not> (afterNewLine ?ded \<and> indentLevel ?ded < prevIndentLevel ?ded \<and>
                modeStack (snd (specNextToken (earthLexer ?ded))) = [])"
      using ded by simp
    from NextToken_indentation [of specNextToken ?ded "fst (specNextToken (earthLexer ?ded))"
        "snd (specNextToken (earthLexer ?ded))", THEN conjunct1, rule_format, OF pair, THEN conjunct2, THEN conjunct2, rule_format,
        OF content [OF ded(1) ded(2) h], THEN conjunct2, rule_format, OF e]
    obtain t l' where r: "NextToken specNextToken ?ded = Inr (t, l')"
      and q: "t # tokenQueue l' = tokenQueue ?ded @
                 (if afterNewLine ?ded \<and> prevIndentLevel ?ded < indentLevel ?ded
                  then [Create ?ded EarthLexerINDENT]
                  else if afterNewLine ?ded \<and> indentLevel ?ded < prevIndentLevel ?ded
                  then [Create ?ded EarthLexerDEDENT]
                  else []) @ [fst (specNextToken (earthLexer ?ded))]"
      and eq: "l'\<lparr>tokenQueue := []\<rparr> =
                 ?ded\<lparr>earthLexer :=
                      (if afterNewLine ?ded \<and> indentLevel ?ded < prevIndentLevel ?ded
                       then (snd (specNextToken (earthLexer ?ded)))
                              \<lparr>mode := last (modeStack (snd (specNextToken (earthLexer ?ded)))),
                               modeStack := butlast (modeStack (snd (specNextToken (earthLexer ?ded))))\<rparr>
                       else snd (specNextToken (earthLexer ?ded))),
                    prevIndentLevel := indentLevel ?ded, afterNewLine := False,
                    tokenQueue := []\<rparr>"
      by blast
    have "map tokenType (t # tokenQueue l') = [EarthLexerDEDENT, EarthLexerAtom]"
      unfolding q using ded by (simp add: Create_def)
    moreover have "prevIndentLevel l' = 0" "\<not> afterNewLine l'"
      "modeStack (earthLexer l') = []" "mode (earthLexer l') = 1"
      using arg_cong [OF eq, of prevIndentLevel] arg_cong [OF eq, of afterNewLine]
        arg_cong [OF eq, of "\<lambda>x. modeStack (earthLexer x)"]
        arg_cong [OF eq, of "\<lambda>x. mode (earthLexer x)"] ded
      by simp_all
    ultimately show ?thesis using r by - (rule exI [of _ t], rule exI [of _ l'], simp)
  qed
  have pan: "tokenType (fst (specNextToken (earthLexer ?pan))) = EarthLexerAtom"
    "TokenGetText (snd (specNextToken (earthLexer ?pan))) (fst (specNextToken (earthLexer ?pan))) = Inr ''c''"
    "afterNewLine ?pan" "indentLevel ?pan = 0" "prevIndentLevel ?pan = 1"
    "modeStack (snd (specNextToken (earthLexer ?pan))) = []"
    by (code_simp+)
  have c5: "NextToken specNextToken ?pan = Inl (Panic ''Empty Stack'')"
  proof -
    have h: "\<not> HasPrefix ''c'' ''<<''" by (simp add: HasPrefix_def)
    have e: "afterNewLine ?pan \<and> indentLevel ?pan < prevIndentLevel ?pan \<and>
                modeStack (snd (specNextToken (earthLexer ?pan))) = []"
      using pan by simp
    from NextToken_indentation [of specNextToken ?pan "fst (specNextToken (earthLexer ?pan))"
        "snd (specNextToken (earthLexer ?pan))", THEN conjunct1, rule_format, OF pair, THEN conjunct2, THEN conjunct2, rule_format,
        OF content [OF pan(1) pan(2) h], THEN conjunct1, rule_format, OF e]
    show ?thesis .
  qed
  have plain: "\<not> list_ex opensHereDoc (reads specNextToken 12 ?run)"
    by code_simp
  have ok: "\<not> isl (NextTokens specNextToken 12 ?run)"
    by code_simp
  have spec: "map tokenType
                (tokenQueue ?run @
                 with_indents (indent_of ?run) (map fst (reads specNextToken 12 ?run))) =
        [EarthLexerAtom, EarthLexerNL, EarthLexerWS, EarthLexerINDENT, EarthLexerAtom,
         EarthLexerNL, EarthLexerWS, EarthLexerAtom, EarthLexerNL, EarthLexerDEDENT,
         EarthLexerAtom, TokenEOF, TokenEOF, TokenEOF]"
    by code_simp
  have c6: "\<exists>ts m'. NextTokens specNextToken 12 ?run = Inr (ts, m') \<and>
      map tokenType (ts @ tokenQueue m') =
        [EarthLexerAtom, EarthLexerNL, EarthLexerWS, EarthLexerINDENT, EarthLexerAtom,
         EarthLexerNL, EarthLexerWS, EarthLexerAtom, EarthLexerNL, EarthLexerDEDENT,
         EarthLexerAtom, TokenEOF, TokenEOF, TokenEOF]"
  proof -
    obtain ts m' where r: "NextTokens specNextToken 12 ?run = Inr (ts, m')"
      using ok by (cases "NextTokens specNextToken 12 ?run") auto
    from NextToken_indentation [THEN conjunct2, rule_format, OF conjI [OF r plain]]
    have "ts @ tokenQueue m' =
          tokenQueue ?run @ with_indents (indent_of ?run) (map fst (reads specNextToken 12 ?run))" .
    then have "map tokenType (ts @ tokenQueue m') =
        [EarthLexerAtom, EarthLexerNL, EarthLexerWS, EarthLexerINDENT, EarthLexerAtom,
         EarthLexerNL, EarthLexerWS, EarthLexerAtom, EarthLexerNL, EarthLexerDEDENT,
         EarthLexerAtom, TokenEOF, TokenEOF, TokenEOF]"
      using spec by (simp only:)
    with r show ?thesis by (intro exI [of _ ts] exI [of _ m'] conjI)
  qed
  from ws(1) c1 nl c2 ind(1) c3 ded(1) c4 c5 plain c6 show ?thesis by blast
qed

end
